theory Spec2Isabelle
  imports Main "HOL-Library.Sublist"
begin

section \<open>JavaScript values and strings used by server.js\<close>

text \<open>
  Strings are lists of bytes. \<open>String.prototype.includes\<close> is the case-sensitive
  search for a contiguous occurrence; it is written here as a scan over the start
  positions, each tested with \<open>prefix\<close>.
\<close>

fun includes_str :: "string \<Rightarrow> string \<Rightarrow> bool" where
  "includes_str [] sub = (sub = [])"
| "includes_str (c # cs) sub = (prefix sub (c # cs) \<or> includes_str cs sub)"

text \<open>
  A string is the sequence of the bytes of its UTF-8 encoding (the strings of a JSON
  body are well-formed), so a search for an ASCII text finds what \<open>includes\<close> finds. \<open>String.prototype.trim\<close> removes white space and
  line terminators from both ends: the code points U+0009 to U+000D, U+0020, U+00A0,
  U+1680, U+2000 to U+200A, U+2028, U+2029, U+202F, U+205F, U+3000 and U+FEFF. They are
  listed by their encodings. \<open>stripLeading\<close> removes them from the front for as long as
  one of them is a prefix; \<open>trim\<close> does so on both ends, the end being the front of the
  reversed string.
\<close>

definition whiteSpaces :: "string list" where
  "whiteSpaces =
     [[CHR 0x09], [CHR 0x0A], [CHR 0x0B], [CHR 0x0C], [CHR 0x0D], [CHR 0x20],
      [CHR 0xC2, CHR 0xA0],
      [CHR 0xE1, CHR 0x9A, CHR 0x80],
      [CHR 0xE2, CHR 0x80, CHR 0x80], [CHR 0xE2, CHR 0x80, CHR 0x81],
      [CHR 0xE2, CHR 0x80, CHR 0x82], [CHR 0xE2, CHR 0x80, CHR 0x83],
      [CHR 0xE2, CHR 0x80, CHR 0x84], [CHR 0xE2, CHR 0x80, CHR 0x85],
      [CHR 0xE2, CHR 0x80, CHR 0x86], [CHR 0xE2, CHR 0x80, CHR 0x87],
      [CHR 0xE2, CHR 0x80, CHR 0x88], [CHR 0xE2, CHR 0x80, CHR 0x89],
      [CHR 0xE2, CHR 0x80, CHR 0x8A],
      [CHR 0xE2, CHR 0x80, CHR 0xA8], [CHR 0xE2, CHR 0x80, CHR 0xA9],
      [CHR 0xE2, CHR 0x80, CHR 0xAF],
      [CHR 0xE2, CHR 0x81, CHR 0x9F],
      [CHR 0xE3, CHR 0x80, CHR 0x80],
      [CHR 0xEF, CHR 0xBB, CHR 0xBF]]"

function stripLeading :: "string list \<Rightarrow> string \<Rightarrow> string" where
  "stripLeading wss s =
     (case find (\<lambda>ws. ws \<noteq> [] \<and> prefix ws s) wss of
        None \<Rightarrow> s
      | Some ws \<Rightarrow> stripLeading wss (drop (length ws) s))"
  by pat_completeness auto
termination
proof (relation "measure (\<lambda>(wss, s). length s)")
  show "wf (measure (\<lambda>(wss, s). length s))" by simp
next
  fix wss :: "string list" and s ws :: string
  assume "find (\<lambda>ws. ws \<noteq> [] \<and> prefix ws s) wss = Some ws"
  then have "ws \<noteq> []" and "prefix ws s" by (auto simp: find_Some_iff)
  then have "s \<noteq> []" by auto
  with \<open>ws \<noteq> []\<close> show "((wss, drop (length ws) s), (wss, s)) \<in> measure (\<lambda>(wss, s). length s)"
    by simp
qed

definition trim :: "string \<Rightarrow> string" where
  "trim s = rev (stripLeading (map rev whiteSpaces) (rev (stripLeading whiteSpaces s)))"

text \<open>\<open>Array.prototype.join\<close> with a separator.\<close>

fun join :: "string \<Rightarrow> string list \<Rightarrow> string" where
  "join sep [] = []"
| "join sep [x] = x"
| "join sep (x # y # ys) = x @ sep @ join sep (y # ys)"

text \<open>
  A value of a JSON request body property. \<open>JUndefined\<close> is the absent property.
  Arrays and objects are always truthy and carry no \<open>trim\<close> method, so they are one
  constructor.
\<close>

datatype js_value = JUndefined | JNull | JBool bool | JNumber int | JString string | JObject

fun truthy :: "js_value \<Rightarrow> bool" where
  "truthy JUndefined = False"
| "truthy JNull = False"
| "truthy (JBool b) = b"
| "truthy (JNumber n) = (n \<noteq> 0)"
| "truthy (JString s) = (s \<noteq> [])"
| "truthy JObject = True"

text \<open>
  A thrown error is an object with an optional \<open>message\<close> property; \<open>None\<close> is an
  error whose \<open>message\<close> is undefined.
\<close>

datatype js_error = Error (message: "string option")

section \<open>buildHistoryForGemini (server.js, lines 22-38)\<close>

text \<open>
  An entry of the history is an object with the string properties \<open>sender\<close> and
  \<open>text\<close>; the sender may be any string.
\<close>

record msg =
  sender :: string
  msg_text :: string

text \<open>
  An element of the history array is such an object or \<open>null\<close>; reading a property of
  \<open>null\<close> throws a TypeError.
\<close>

datatype entry = Null | Obj msg

datatype part = Part (part_text: string)

record turn =
  role :: string
  parts :: "part list"

text \<open>
  The loop body of lines 26 to 32: an entry whose sender is neither \<open>user\<close> nor
  \<open>bot\<close> pushes nothing, and \<open>msg.sender\<close> of a \<open>null\<close> entry throws.
\<close>

fun pushHistory :: "turn list \<Rightarrow> entry list \<Rightarrow> js_error + turn list" where
  "pushHistory chatHistory [] = Inr chatHistory"
| "pushHistory chatHistory (Null # ms) =
     Inl (Error (Some ''Cannot read properties of null (reading 'sender')''))"
| "pushHistory chatHistory (Obj m # ms) =
     (if sender m = ''user''
      then pushHistory (chatHistory @ [\<lparr>role = ''user'', parts = [Part (msg_text m)]\<rparr>]) ms
      else if sender m = ''bot''
      then pushHistory (chatHistory @ [\<lparr>role = ''model'', parts = [Part (msg_text m)]\<rparr>]) ms
      else pushHistory chatHistory ms)"

text \<open>
  The history argument is \<open>None\<close> when the caller passes a falsy value
  (\<open>history || []\<close>). The result is the error thrown inside the loop, or the turns
  with the new message pushed last.
\<close>

definition buildHistoryForGemini :: "entry list option \<Rightarrow> string \<Rightarrow> js_error + turn list" where
  "buildHistoryForGemini history newMessage =
     (case pushHistory [] (case history of None \<Rightarrow> [] | Some h \<Rightarrow> h) of
        Inl err \<Rightarrow> Inl err
      | Inr chatHistory \<Rightarrow> Inr (chatHistory @ [\<lparr>role = ''user'', parts = [Part newMessage]\<rparr>]))"

section \<open>retryWithBackoff (server.js, lines 61-79)\<close>

text \<open>
  The overload test of lines 66 to 68. An undefined \<open>message\<close> makes every
  \<open>error.message?.includes(...)\<close> undefined, which is falsy.
\<close>

definition isOverloaded :: "js_error \<Rightarrow> bool" where
  "isOverloaded error =
     (case message error of
        None \<Rightarrow> False
      | Some m \<Rightarrow> includes_str m ''503'' \<or> includes_str m ''overloaded''
                  \<or> includes_str m ''Service Unavailable'')"

text \<open>
  An operation \<open>fn\<close> is a function on a state: it returns the error it throws
  (\<open>Inl\<close>) or its value (\<open>Inr\<close>), and the next state. A run of the retry loop gives
  the result of \<open>retryWithBackoff\<close> (\<open>Inr None\<close> is the \<open>undefined\<close> returned when
  the loop ends without a \<open>return\<close>), the outcome of every call of \<open>fn\<close> in order,
  and every delay passed to \<open>setTimeout\<close> in order. The \<open>console.log\<close> of line 72 is
  left out.
\<close>

record 'a retry_run =
  result :: "js_error + 'a option"
  attempts :: "(js_error + 'a) list"
  delays :: "int list"

function retryLoop ::
  "('s \<Rightarrow> (js_error + 'a) \<times> 's) \<Rightarrow> int \<Rightarrow> int \<Rightarrow> int \<Rightarrow> 's \<Rightarrow> 'a retry_run \<times> 's" where
  "retryLoop fn maxRetries baseDelay attempt s =
     (if attempt < maxRetries then
        (case fn s of
           (Inr v, s') \<Rightarrow> (\<lparr>result = Inr (Some v), attempts = [Inr v], delays = []\<rparr>, s')
         | (Inl error, s') \<Rightarrow>
             if isOverloaded error \<and> attempt < maxRetries - 1 then
               (let delay = baseDelay * 2 ^ nat attempt;
                    (run, s'') = retryLoop fn maxRetries baseDelay (attempt + 1) s'
                in (run\<lparr>attempts := Inl error # attempts run,
                         delays := delay # delays run\<rparr>, s''))
             else (\<lparr>result = Inl error, attempts = [Inl error], delays = []\<rparr>, s'))
      else (\<lparr>result = Inr None, attempts = [], delays = []\<rparr>, s))"
  by pat_completeness auto
termination
  by (relation "measure (\<lambda>(fn, maxRetries, baseDelay, attempt, s). nat (maxRetries - attempt))")
     auto

definition retryWithBackoff ::
  "('s \<Rightarrow> (js_error + 'a) \<times> 's) \<Rightarrow> int \<Rightarrow> int \<Rightarrow> 's \<Rightarrow> 'a retry_run \<times> 's" where
  "retryWithBackoff fn maxRetries baseDelay s = retryLoop fn maxRetries baseDelay 0 s"

section \<open>The upstream service and the process state\<close>

text \<open>
  The Gemini client is outside the repository. It is a parameter: three operations on
  an upstream state \<open>'u\<close>, each free to fail with any error. A model handle made by
  \<open>getGenerativeModel\<close> is the model name; a chat session made by \<open>startChat\<close> is
  the model name and its seed history. The value of \<open>generateContent\<close> and of
  \<open>sendMessage\<close> is a result whose \<open>response.text()\<close> returns a string or throws.
\<close>

datatype gen_result = GenResult (response_text: "js_error + string")

record 'u upstream =
  generateContent :: "string \<Rightarrow> string \<Rightarrow> 'u \<Rightarrow> (js_error + gen_result) \<times> 'u"
  startChat :: "string \<Rightarrow> turn list \<Rightarrow> 'u \<Rightarrow> (js_error + unit) \<times> 'u"
  sendMessage :: "string \<Rightarrow> turn list \<Rightarrow> string \<Rightarrow> 'u \<Rightarrow> (js_error + gen_result) \<times> 'u"

datatype upstream_call =
    GenerateContent string string
  | StartChat string "turn list"
  | SendMessage string "turn list" string

text \<open>
  The state a request runs in: the module variable \<open>cachedModelName\<close> (line 19),
  the upstream state, and the log of every call made to the client.
\<close>

record 'u world =
  cachedModelName :: "string option"
  upstreamState :: 'u
  calls :: "upstream_call list"

definition callGenerateContent ::
  "'u upstream \<Rightarrow> string \<Rightarrow> string \<Rightarrow> 'u world \<Rightarrow> (js_error + gen_result) \<times> 'u world" where
  "callGenerateContent up name prompt w =
     (case generateContent up name prompt (upstreamState w) of
        (r, u) \<Rightarrow> (r, w\<lparr>upstreamState := u, calls := calls w @ [GenerateContent name prompt]\<rparr>))"

definition callStartChat ::
  "'u upstream \<Rightarrow> string \<Rightarrow> turn list \<Rightarrow> 'u world \<Rightarrow> (js_error + unit) \<times> 'u world" where
  "callStartChat up name history w =
     (case startChat up name history (upstreamState w) of
        (r, u) \<Rightarrow> (r, w\<lparr>upstreamState := u, calls := calls w @ [StartChat name history]\<rparr>))"

definition callSendMessage ::
  "'u upstream \<Rightarrow> string \<Rightarrow> turn list \<Rightarrow> string \<Rightarrow> 'u world
     \<Rightarrow> (js_error + gen_result) \<times> 'u world" where
  "callSendMessage up name history txt w =
     (case sendMessage up name history txt (upstreamState w) of
        (r, u) \<Rightarrow> (r, w\<lparr>upstreamState := u, calls := calls w @ [SendMessage name history txt]\<rparr>))"

section \<open>Model resolution (server.js, lines 81-147)\<close>

definition modelNames :: "string list" where
  "modelNames =
     [''gemini-2.5-flash'', ''gemini-2.5-pro'', ''gemini-flash-latest'',
      ''gemini-pro-latest'', ''gemini-2.0-flash-001'', ''gemini-2.0-flash'']"

text \<open>
  The liveness probe of lines 101 to 104 and 122 to 125: one
  \<open>generateContent("test")\<close>, whose value is discarded. \<open>getGenerativeModel\<close>
  only builds the handle and makes no call.
\<close>

definition probe :: "'u upstream \<Rightarrow> string \<Rightarrow> 'u world \<Rightarrow> (js_error + unit) \<times> 'u world" where
  "probe up name w =
     (case callGenerateContent up name ''test'' w of
        (Inl err, w') \<Rightarrow> (Inl err, w')
      | (Inr testResult, w') \<Rightarrow> (Inr (), w'))"

text \<open>The local variables \<open>model\<close>, \<open>modelName\<close> and \<open>lastError\<close> of lines 92 to 94.\<close>

record resolution =
  model :: "string option"
  modelName :: "string option"
  lastError :: "js_error option"

definition truthyName :: "string option \<Rightarrow> bool" where
  "truthyName n = (case n of None \<Rightarrow> False | Some s \<Rightarrow> s \<noteq> [])"

text \<open>Lines 96 to 113: the probe of the cached model.\<close>

definition tryCachedModel :: "'u upstream \<Rightarrow> 'u world \<Rightarrow> resolution \<times> 'u world" where
  "tryCachedModel up w =
     (case cachedModelName w of
        None \<Rightarrow> (\<lparr>model = None, modelName = None, lastError = None\<rparr>, w)
      | Some name \<Rightarrow>
          if name = [] then (\<lparr>model = None, modelName = Some name, lastError = None\<rparr>, w)
          else
            (case retryWithBackoff (probe up name) 2 500 w of
               (run, w') \<Rightarrow>
                 (case result run of
                    Inl err \<Rightarrow>
                      (\<lparr>model = None, modelName = None, lastError = None\<rparr>,
                       w'\<lparr>cachedModelName := None\<rparr>)
                  | Inr v \<Rightarrow>
                      (\<lparr>model = Some name, modelName = Some name, lastError = None\<rparr>, w'))))"

text \<open>
  Lines 117 to 142: the walk over the candidates. The overload test of lines 133 to
  139 only chooses the text of a warning and is left out.
\<close>

fun tryModels ::
  "'u upstream \<Rightarrow> string list \<Rightarrow> resolution \<Rightarrow> 'u world \<Rightarrow> resolution \<times> 'u world" where
  "tryModels up [] r w = (r, w)"
| "tryModels up (name # names) r w =
     (case retryWithBackoff (probe up name) 2 500 w of
        (run, w') \<Rightarrow>
          (case result run of
             Inr v \<Rightarrow>
               (r\<lparr>model := Some name, modelName := Some name\<rparr>,
                w'\<lparr>cachedModelName := Some name\<rparr>)
           | Inl err \<Rightarrow>
               tryModels up names (r\<lparr>model := Some name, lastError := Some err\<rparr>) w'))"

definition resolveModel :: "'u upstream \<Rightarrow> 'u world \<Rightarrow> resolution \<times> 'u world" where
  "resolveModel up w =
     (case tryCachedModel up w of
        (r, w') \<Rightarrow>
          if model r = None \<or> \<not> truthyName (modelName r)
          then tryModels up modelNames r w'
          else (r, w'))"

text \<open>The error thrown at line 146.\<close>

definition noModelError :: "js_error option \<Rightarrow> js_error" where
  "noModelError lastErr =
     Error (Some (''No available Gemini model found. All models are either unavailable or overloaded. Last error: ''
       @ (case lastErr of
            None \<Rightarrow> ''Unknown''
          | Some e \<Rightarrow> (case message e of
                         None \<Rightarrow> ''Unknown''
                       | Some m \<Rightarrow> if m = [] then ''Unknown'' else m))
       @ ''. Please try again in a few moments.''))"

section \<open>The conversation call and its fallback (server.js, lines 149-190)\<close>

text \<open>
  Lines 166 to 167 (and 174 to 175, 188 to 189): reading the reply out of what
  \<open>retryWithBackoff\<close> returned. Reading \<open>response\<close> of \<open>undefined\<close> is a TypeError;
  an empty text is replaced by the placeholder.
\<close>

definition replyTextOf :: "js_error + gen_result option \<Rightarrow> js_error + string" where
  "replyTextOf r =
     (case r of
        Inl err \<Rightarrow> Inl err
      | Inr None \<Rightarrow> Inl (Error (Some ''Cannot read properties of undefined (reading response)''))
      | Inr (Some res) \<Rightarrow>
          (case response_text res of
             Inl err \<Rightarrow> Inl err
           | Inr t \<Rightarrow> Inr (if t = [] then ''I couldn't generate a reply.'' else t)))"

text \<open>Line 163: \<open>currentMessage.parts[0].text\<close>, evaluated inside the retried operation.\<close>

definition currentMessageText :: "turn list \<Rightarrow> js_error + string" where
  "currentMessageText conversationHistory =
     (if conversationHistory = []
      then Inl (Error (Some ''Cannot read properties of undefined (reading parts)''))
      else (case parts (last conversationHistory) of
              [] \<Rightarrow> Inl (Error (Some ''Cannot read properties of undefined (reading text)''))
            | p # ps \<Rightarrow> Inr (part_text p)))"

definition sendCurrent ::
  "'u upstream \<Rightarrow> string \<Rightarrow> turn list \<Rightarrow> turn list \<Rightarrow> 'u world
     \<Rightarrow> (js_error + gen_result) \<times> 'u world" where
  "sendCurrent up name historyForChat conversationHistory w =
     (case currentMessageText conversationHistory of
        Inl err \<Rightarrow> (Inl err, w)
      | Inr t \<Rightarrow> callSendMessage up name historyForChat t w)"

text \<open>Lines 152 to 176: the body of the inner \<open>try\<close>.\<close>

definition primaryPath ::
  "'u upstream \<Rightarrow> string \<Rightarrow> turn list \<Rightarrow> string \<Rightarrow> 'u world \<Rightarrow> (js_error + string) \<times> 'u world" where
  "primaryPath up name conversationHistory trimmedMessage w =
     (let historyForChat = butlast conversationHistory in
      if length historyForChat > 0 then
        (case callStartChat up name historyForChat w of
           (Inl err, w1) \<Rightarrow> (Inl err, w1)
         | (Inr chat, w1) \<Rightarrow>
             (case retryWithBackoff (sendCurrent up name historyForChat conversationHistory)
                     3 1000 w1 of
                (run, w2) \<Rightarrow> (replyTextOf (result run), w2)))
      else
        (case retryWithBackoff (callGenerateContent up name trimmedMessage) 3 1000 w of
           (run, w2) \<Rightarrow> (replyTextOf (result run), w2)))"

text \<open>Lines 180 to 182: the prompt of the fallback.\<close>

definition transcriptLine :: "msg \<Rightarrow> string" where
  "transcriptLine m = (if sender m = ''user'' then ''User'' else ''Assistant'') @ '': '' @ msg_text m"

definition fallbackPrompt :: "msg list \<Rightarrow> string \<Rightarrow> string" where
  "fallbackPrompt trimmedHist trimmedMessage =
     (if length trimmedHist > 0
      then ''Previous conversation:'' @ [CHR 0x0A]
           @ join [CHR 0x0A] (map transcriptLine trimmedHist)
           @ [CHR 0x0A, CHR 0x0A] @ ''User: '' @ trimmedMessage @ [CHR 0x0A] @ ''Assistant:''
      else trimmedMessage)"

text \<open>Lines 184 to 189: the body of the inner \<open>catch\<close>.\<close>

definition fallbackPath ::
  "'u upstream \<Rightarrow> string \<Rightarrow> msg list \<Rightarrow> string \<Rightarrow> 'u world \<Rightarrow> (js_error + string) \<times> 'u world" where
  "fallbackPath up name trimmedHist trimmedMessage w =
     (case retryWithBackoff
             (callGenerateContent up name (fallbackPrompt trimmedHist trimmedMessage)) 3 1000 w of
        (run, w') \<Rightarrow> (replyTextOf (result run), w'))"

text \<open>Lines 151 to 190: the inner \<open>try\<close> with its \<open>catch\<close>.\<close>

definition invoke ::
  "'u upstream \<Rightarrow> string \<Rightarrow> msg list \<Rightarrow> turn list \<Rightarrow> string \<Rightarrow> 'u world
     \<Rightarrow> (js_error + string) \<times> 'u world" where
  "invoke up name trimmedHist conversationHistory trimmedMessage w =
     (case primaryPath up name conversationHistory trimmedMessage w of
        (Inr replyText, w') \<Rightarrow> (Inr replyText, w')
      | (Inl chatError, w') \<Rightarrow> fallbackPath up name trimmedHist trimmedMessage w')"

section \<open>The error message of a failed request (server.js, lines 197-213)\<close>

definition overloadedTemplate :: string where
  "overloadedTemplate = ''The AI model is currently overloaded. Please try again in a few moments. The system will automatically retry with different models.''"

definition notFoundTemplate :: string where
  "notFoundTemplate = ''Model not found. Please check your API key has access to the requested model.''"

definition unauthorizedTemplate :: string where
  "unauthorizedTemplate = ''Invalid API key. Please check your GEMINI_API_KEY in .env file.''"

definition forbiddenTemplate :: string where
  "forbiddenTemplate = ''API key doesn't have permission to access this model.''"

definition rateLimitedTemplate :: string where
  "rateLimitedTemplate = ''Rate limit exceeded. Please wait a moment before trying again.''"

definition defaultErrorMessage :: string where
  "defaultErrorMessage = ''Error communicating with Gemini API''"

text \<open>The \<open>if (err.message)\<close> of line 199 is false for an undefined and for an empty message.\<close>

definition errorMessage :: "js_error \<Rightarrow> string" where
  "errorMessage err =
     (case message err of
        None \<Rightarrow> defaultErrorMessage
      | Some m \<Rightarrow>
          if m = [] then defaultErrorMessage
          else if includes_str m ''503'' \<or> includes_str m ''overloaded''
                  \<or> includes_str m ''Service Unavailable'' then overloadedTemplate
          else if includes_str m ''404'' \<or> includes_str m ''not found'' then notFoundTemplate
          else if includes_str m ''401'' \<or> includes_str m ''API key'' then unauthorizedTemplate
          else if includes_str m ''403'' then forbiddenTemplate
          else if includes_str m ''429'' \<or> includes_str m ''rate limit'' then rateLimitedTemplate
          else m)"

section \<open>The handler of POST /api/chat (server.js, lines 40-217)\<close>

record request =
  req_message :: js_value
  req_history :: "entry list option"
  req_userId :: js_value

datatype response_body = ReplyBody string | ErrorBody string

record response =
  status :: nat
  body :: response_body

text \<open>
  Line 44: \<open>!message || !message.trim()\<close>. A truthy value that is not a string has
  no \<open>trim\<close>, and the call throws.
\<close>

definition messageMissing :: "js_value \<Rightarrow> js_error + bool" where
  "messageMissing v =
     (if \<not> truthy v then Inr True
      else (case v of
              JString s \<Rightarrow> Inr (trim s = [])
            | _ \<Rightarrow> Inl (Error (Some ''message.trim is not a function''))))"

text \<open>
  Lines 53 to 55. The request's history is \<open>None\<close> when it is not an array;
  \<open>slice(-30)\<close> keeps the last 30 entries.
\<close>

definition trimmedHistory :: "entry list option \<Rightarrow> entry list" where
  "trimmedHistory history =
     (case history of None \<Rightarrow> [] | Some h \<Rightarrow> drop (length h - 30) h)"

text \<open>
  Once \<open>buildHistoryForGemini\<close> has returned (line 58), no entry of the trimmed
  history is \<open>null\<close>: the entries are the objects that \<open>objectsOf\<close> lists.
\<close>

fun objectsOf :: "entry list \<Rightarrow> msg list" where
  "objectsOf [] = []"
| "objectsOf (Null # es) = objectsOf es"
| "objectsOf (Obj m # es) = m # objectsOf es"

text \<open>
  Lines 52 to 192: the outer \<open>try\<close> once both checks have passed. The conversation is
  built before any model is probed, so an error of line 58 leaves the state as it was.
\<close>

definition chatBody ::
  "'u upstream \<Rightarrow> string \<Rightarrow> entry list option \<Rightarrow> 'u world \<Rightarrow> (js_error + string) \<times> 'u world" where
  "chatBody up trimmedMessage history w =
     (let trimmedHist = trimmedHistory history in
      case buildHistoryForGemini (Some trimmedHist) trimmedMessage of
        Inl err \<Rightarrow> (Inl err, w)
      | Inr conversationHistory \<Rightarrow>
          (case resolveModel up w of
             (r, w1) \<Rightarrow>
               if model r = None \<or> \<not> truthyName (modelName r)
               then (Inl (noModelError (lastError r)), w1)
               else (case model r of
                       None \<Rightarrow> (Inl (noModelError (lastError r)), w1)
                     | Some name \<Rightarrow>
                         invoke up name (objectsOf trimmedHist) conversationHistory
                           trimmedMessage w1)))"

definition messageString :: "js_value \<Rightarrow> string" where
  "messageString v = (case v of JString s \<Rightarrow> s | _ \<Rightarrow> [])"

text \<open>
  The whole handler. \<open>apiKey\<close> is \<open>process.env.GEMINI_API_KEY\<close>, \<open>None\<close> when unset.
  The \<open>console\<close> calls are left out.
\<close>

definition chatHandler ::
  "'u upstream \<Rightarrow> string option \<Rightarrow> request \<Rightarrow> 'u world \<Rightarrow> response \<times> 'u world" where
  "chatHandler up apiKey req w =
     (case messageMissing (req_message req) of
        Inl err \<Rightarrow> (\<lparr>status = 500, body = ErrorBody (errorMessage err)\<rparr>, w)
      | Inr True \<Rightarrow> (\<lparr>status = 400, body = ErrorBody ''message is required''\<rparr>, w)
      | Inr False \<Rightarrow>
          if \<not> truthyName apiKey
          then (\<lparr>status = 500, body = ErrorBody ''Gemini API key not configured''\<rparr>, w)
          else
            (case chatBody up (trim (messageString (req_message req))) (req_history req) w of
               (Inr replyText, w') \<Rightarrow> (\<lparr>status = 200, body = ReplyBody replyText\<rparr>, w')
             | (Inl err, w') \<Rightarrow> (\<lparr>status = 500, body = ErrorBody (errorMessage err)\<rparr>, w')))"

section \<open>Vocabulary of the properties\<close>

text \<open>
  \<open>callsOf fn n s\<close> makes \<open>n\<close> consecutive calls of an operation, each from the
  state the previous one left, and gives their outcomes in order with the last state.
\<close>

fun callsOf :: "('s \<Rightarrow> 'r \<times> 's) \<Rightarrow> nat \<Rightarrow> 's \<Rightarrow> 'r list \<times> 's" where
  "callsOf fn 0 s = ([], s)"
| "callsOf fn (Suc n) s =
     (case fn s of (r, s') \<Rightarrow> (case callsOf fn n s' of (rs, s'') \<Rightarrow> (r # rs, s'')))"

text \<open>
  Letter case of ASCII text, as \<open>toUpperCase\<close> and \<open>toLowerCase\<close> change it: the
  server never calls them, they only say what a change of case is.
\<close>

definition toUpperCaseChar :: "char \<Rightarrow> char" where
  "toUpperCaseChar c =
     (let n = of_char c :: nat in if 97 \<le> n \<and> n \<le> 122 then char_of (n - 32) else c)"

definition toLowerCaseChar :: "char \<Rightarrow> char" where
  "toLowerCaseChar c =
     (let n = of_char c :: nat in if 65 \<le> n \<and> n \<le> 90 then char_of (n + 32) else c)"

definition toUpperCase :: "string \<Rightarrow> string" where
  "toUpperCase s = map toUpperCaseChar s"

definition toLowerCase :: "string \<Rightarrow> string" where
  "toLowerCase s = map toLowerCaseChar s"

text \<open>
  A message is blank when it has nothing but white space: removing white space from its
  front leaves nothing.
\<close>

definition blank :: "string \<Rightarrow> bool" where
  "blank s = (stripLeading whiteSpaces s = [])"

text \<open>
  What one run of the retry loop that starts at attempt \<open>a\<close> guarantees; the loop
  invariant of \<open>retryLoop\<close>.
\<close>

definition retryInv ::
  "('s \<Rightarrow> (js_error + 'a) \<times> 's) \<Rightarrow> int \<Rightarrow> int \<Rightarrow> int \<Rightarrow> 's \<Rightarrow> 'a retry_run \<Rightarrow> 's \<Rightarrow> bool" where
  "retryInv fn M B a s run s' \<longleftrightarrow>
     int (length (attempts run)) \<le> max 0 (M - a)
   \<and> callsOf fn (length (attempts run)) s = (attempts run, s')
   \<and> delays run = map (\<lambda>i. B * 2 ^ (nat a + i)) [0..<length (attempts run) - 1]
   \<and> (\<forall>i < length (attempts run) - 1. \<exists>e. attempts run ! i = Inl e \<and> isOverloaded e)
   \<and> (case result run of
         Inl e \<Rightarrow> attempts run \<noteq> [] \<and> last (attempts run) = Inl e
                  \<and> (isOverloaded e \<longrightarrow> int (length (attempts run)) = M - a)
       | Inr None \<Rightarrow> attempts run = [] \<and> M \<le> a
       | Inr (Some v) \<Rightarrow> attempts run \<noteq> [] \<and> last (attempts run) = Inr v)"

section \<open>Substring search\<close>

lemma includes_str_iff: "includes_str s sub \<longleftrightarrow> (\<exists>ps ss. s = ps @ sub @ ss)"
proof (induction s)
  case Nil
  then show ?case by auto
next
  case (Cons c cs)
  show ?case
  proof
    assume "includes_str (c # cs) sub"
    then consider "prefix sub (c # cs)" | "includes_str cs sub" by auto
    then show "\<exists>ps ss. c # cs = ps @ sub @ ss"
    proof cases
      case 1
      then obtain ss where "c # cs = sub @ ss" by (auto simp: prefix_def)
      then have "c # cs = [] @ sub @ ss" by simp
      then show ?thesis by blast
    next
      case 2
      with Cons.IH obtain ps ss where "cs = ps @ sub @ ss" by blast
      then have "c # cs = (c # ps) @ sub @ ss" by simp
      then show ?thesis by blast
    qed
  next
    assume "\<exists>ps ss. c # cs = ps @ sub @ ss"
    then obtain ps ss where eq: "c # cs = ps @ sub @ ss" by blast
    show "includes_str (c # cs) sub"
    proof (cases ps)
      case Nil
      with eq have "prefix sub (c # cs)" by (simp add: prefix_def)
      then show ?thesis by simp
    next
      case (Cons p ps')
      with eq have "cs = ps' @ sub @ ss" by simp
      with Cons.IH have "includes_str cs sub" by blast
      then show ?thesis by simp
    qed
  qed
qed

lemma includes_str_mid: "includes_str (ps @ sub @ ss) sub"
  by (auto simp: includes_str_iff)

lemma includes_str_set: "includes_str s sub \<Longrightarrow> set sub \<subseteq> set s"
  by (auto simp: includes_str_iff)

section \<open>The retry loop, case by case\<close>

declare retryLoop.simps [simp del]

lemma retryLoop_done:
  "\<not> attempt < maxRetries \<Longrightarrow>
   retryLoop fn maxRetries baseDelay attempt s = (\<lparr>result = Inr None, attempts = [], delays = []\<rparr>, s)"
  by (subst retryLoop.simps) simp

lemma retryLoop_value:
  "attempt < maxRetries \<Longrightarrow> fn s = (Inr v, s') \<Longrightarrow>
   retryLoop fn maxRetries baseDelay attempt s =
     (\<lparr>result = Inr (Some v), attempts = [Inr v], delays = []\<rparr>, s')"
  by (subst retryLoop.simps) simp

lemma retryLoop_throw:
  "attempt < maxRetries \<Longrightarrow> fn s = (Inl e, s') \<Longrightarrow> \<not> (isOverloaded e \<and> attempt < maxRetries - 1) \<Longrightarrow>
   retryLoop fn maxRetries baseDelay attempt s =
     (\<lparr>result = Inl e, attempts = [Inl e], delays = []\<rparr>, s')"
  by (subst retryLoop.simps) auto

lemma retryLoop_retry:
  "attempt < maxRetries - 1 \<Longrightarrow> fn s = (Inl e, s') \<Longrightarrow> isOverloaded e \<Longrightarrow>
   retryLoop fn maxRetries baseDelay (attempt + 1) s' = (run, s'') \<Longrightarrow>
   retryLoop fn maxRetries baseDelay attempt s =
     (run\<lparr>attempts := Inl e # attempts run,
          delays := baseDelay * 2 ^ nat attempt # delays run\<rparr>, s'')"
  by (subst retryLoop.simps) (simp add: Let_def)

lemma retryLoop_cases:
  obtains
    (fin) "\<not> attempt < maxRetries"
      "retryLoop fn maxRetries baseDelay attempt s = (\<lparr>result = Inr None, attempts = [], delays = []\<rparr>, s)"
  | (val) v s1 where "attempt < maxRetries" "fn s = (Inr v, s1)"
      "retryLoop fn maxRetries baseDelay attempt s =
         (\<lparr>result = Inr (Some v), attempts = [Inr v], delays = []\<rparr>, s1)"
  | (throw) e s1 where "attempt < maxRetries" "fn s = (Inl e, s1)"
      "\<not> (isOverloaded e \<and> attempt < maxRetries - 1)"
      "retryLoop fn maxRetries baseDelay attempt s =
         (\<lparr>result = Inl e, attempts = [Inl e], delays = []\<rparr>, s1)"
  | (retry) e s1 run s2 where "attempt < maxRetries - 1" "fn s = (Inl e, s1)" "isOverloaded e"
      "retryLoop fn maxRetries baseDelay (attempt + 1) s1 = (run, s2)"
      "retryLoop fn maxRetries baseDelay attempt s =
         (run\<lparr>attempts := Inl e # attempts run,
              delays := baseDelay * 2 ^ nat attempt # delays run\<rparr>, s2)"
proof (cases "attempt < maxRetries")
  case False
  show ?thesis by (rule fin [OF False retryLoop_done [OF False]])
next
  case lt: True
  obtain r s1 where fn: "fn s = (r, s1)" by (cases "fn s")
  show ?thesis
  proof (cases r)
    case (Inr v)
    with fn have fn': "fn s = (Inr v, s1)" by simp
    show ?thesis by (rule val [OF lt fn' retryLoop_value [where fn = fn and s = s, OF lt fn']])
  next
    case (Inl e)
    with fn have fn': "fn s = (Inl e, s1)" by simp
    show ?thesis
    proof (cases "isOverloaded e \<and> attempt < maxRetries - 1")
      case False
      show ?thesis by (rule throw [OF lt fn' False retryLoop_throw [where fn = fn and s = s, OF lt fn' False]])
    next
      case True
      then have ov: "isOverloaded e" and lt1: "attempt < maxRetries - 1" by simp_all
      obtain run s2 where rec: "retryLoop fn maxRetries baseDelay (attempt + 1) s1 = (run, s2)"
        by (cases "retryLoop fn maxRetries baseDelay (attempt + 1) s1")
      show ?thesis by (rule retry [OF lt1 fn' ov rec retryLoop_retry [where fn = fn and s = s, OF lt1 fn' ov rec]])
    qed
  qed
qed

lemma retryLoop_inv:
  "0 \<le> a \<Longrightarrow> retryLoop fn M B a s = (run, s') \<Longrightarrow> retryInv fn M B a s run s'"
proof (induction "nat (M - a)" arbitrary: a s run s')
  case 0
  then have "\<not> a < M" by simp
  from retryLoop_done [OF this, of fn B s] 0(3)
  have "run = \<lparr>result = Inr None, attempts = [], delays = []\<rparr>" "s' = s" "M \<le> a"
    using \<open>\<not> a < M\<close> by simp_all
  then show ?case by (simp add: retryInv_def)
next
  case (Suc n)
  show ?case
  proof (cases rule: retryLoop_cases [of a M fn B s])
    case fin
    with Suc.hyps(2) show ?thesis by simp
  next
    case (val v s1)
    with Suc.prems(2)
    have "run = \<lparr>result = Inr (Some v), attempts = [Inr v], delays = []\<rparr>" "s' = s1"
      by simp_all
    with val(1,2) show ?thesis by (simp add: retryInv_def)
  next
    case (throw e s1)
    with Suc.prems(2)
    have "run = \<lparr>result = Inl e, attempts = [Inl e], delays = []\<rparr>" "s' = s1"
      by simp_all
    with throw(1,2,3) show ?thesis by (auto simp: retryInv_def)
  next
    case (retry e s1 run1 s2)
    have n: "n = nat (M - (a + 1))" using Suc.hyps(2) by simp
    have ih: "retryInv fn M B (a + 1) s1 run1 s2"
      using Suc.hyps(1) [OF n _ retry(4)] Suc.prems(1) by simp
    have run: "run = run1\<lparr>attempts := Inl e # attempts run1,
        delays := B * 2 ^ nat a # delays run1\<rparr>" and s': "s' = s2"
      using retry(5) Suc.prems(2) by simp_all
    have ne: "attempts run1 \<noteq> []"
      using ih retry(1) by (auto simp: retryInv_def split: sum.splits option.splits)
    then obtain k where k: "length (attempts run1) = Suc k" by (cases "attempts run1") auto
    have map_eq: "map (\<lambda>i. B * 2 ^ (nat a + i)) [0..<Suc k]
        = B * 2 ^ nat a # map (\<lambda>i. B * 2 ^ (nat (a + 1) + i)) [0..<k]"
      using Suc.prems(1) by (simp add: upt_rec [of 0] map_Suc_upt [symmetric] nat_add_distrib del: upt_Suc)
    show ?thesis
      unfolding retryInv_def
    proof (intro conjI)
      show "int (length (attempts run)) \<le> max 0 (M - a)"
        using ih retry(1) by (simp add: run retryInv_def)
      show "callsOf fn (length (attempts run)) s = (attempts run, s')"
        using ih retry(2) by (simp add: run s' retryInv_def)
      show "delays run = map (\<lambda>i. B * 2 ^ (nat a + i)) [0..<length (attempts run) - 1]"
        using ih k map_eq by (simp add: run retryInv_def del: upt_Suc)
      show "\<forall>i<length (attempts run) - 1. \<exists>e. attempts run ! i = Inl e \<and> isOverloaded e"
      proof (intro allI impI)
        fix i assume "i < length (attempts run) - 1"
        then have i: "i < Suc k" by (simp add: run k)
        show "\<exists>e. attempts run ! i = Inl e \<and> isOverloaded e"
        proof (cases i)
          case 0
          then show ?thesis using retry(3) by (simp add: run)
        next
          case (Suc j)
          with i have "j < length (attempts run1) - 1" by (simp add: k)
          with ih have "\<exists>e. attempts run1 ! j = Inl e \<and> isOverloaded e"
            by (simp add: retryInv_def)
          then show ?thesis by (simp add: run Suc)
        qed
      qed
      show "case result run of
         Inl e \<Rightarrow> attempts run \<noteq> [] \<and> last (attempts run) = Inl e
                  \<and> (isOverloaded e \<longrightarrow> int (length (attempts run)) = M - a)
       | Inr None \<Rightarrow> attempts run = [] \<and> M \<le> a
       | Inr (Some v) \<Rightarrow> attempts run \<noteq> [] \<and> last (attempts run) = Inr v"
        using ih ne by (auto simp: run retryInv_def split: sum.splits option.splits)
    qed
  qed
qed


lemma isOverloaded_iff:
  "isOverloaded e \<longleftrightarrow>
     (\<exists>m. message e = Some m
        \<and> (includes_str m ''503'' \<or> includes_str m ''overloaded''
             \<or> includes_str m ''Service Unavailable''))"
  by (cases "message e") (simp_all add: isOverloaded_def)

section \<open>C1: the retry policy\<close>

text \<open>
  C1. For every operation, every \<open>maxRetries\<close> and every \<open>baseDelay\<close>, a run of
  \<open>retryWithBackoff\<close> calls the operation at most \<open>maxRetries\<close> times, one call after
  the other on the state the previous call left. Every call but the last failed with an
  error whose message contains \<open>503\<close>, \<open>overloaded\<close> or \<open>Service Unavailable\<close>, so a
  failure whose message contains none of them is followed by no further call. Before
  the retry that follows attempt \<open>i\<close> the loop sleeps \<open>baseDelay * 2 ^ i\<close>. When the run
  fails, its error is the error of the last call itself, and an error whose message
  contains one of the three indicators comes out only once all \<open>maxRetries\<close> calls were
  made.
\<close>

theorem retryWithBackoff_policy:
  assumes "retryWithBackoff fn maxRetries baseDelay s = (run, s')"
  shows "length (attempts run) \<le> nat maxRetries
       \<and> callsOf fn (length (attempts run)) s = (attempts run, s')
       \<and> delays run = map (\<lambda>i. baseDelay * 2 ^ i) [0..<length (attempts run) - 1]
       \<and> (\<forall>i < length (attempts run) - 1.
             \<exists>e m. attempts run ! i = Inl e \<and> message e = Some m
               \<and> (includes_str m ''503'' \<or> includes_str m ''overloaded''
                    \<or> includes_str m ''Service Unavailable''))
       \<and> (case result run of
             Inl e \<Rightarrow> attempts run \<noteq> [] \<and> last (attempts run) = Inl e
                      \<and> ((\<exists>m. message e = Some m
                             \<and> (includes_str m ''503'' \<or> includes_str m ''overloaded''
                                  \<or> includes_str m ''Service Unavailable''))
                           \<longrightarrow> int (length (attempts run)) = maxRetries)
           | Inr None \<Rightarrow> attempts run = [] \<and> maxRetries \<le> 0
           | Inr (Some v) \<Rightarrow> attempts run \<noteq> [] \<and> last (attempts run) = Inr v)"
proof -
  from assms have "retryLoop fn maxRetries baseDelay 0 s = (run, s')"
    by (simp add: retryWithBackoff_def)
  then have inv: "retryInv fn maxRetries baseDelay 0 s run s'"
    by (rule retryLoop_inv [rotated]) simp
  have retried: "\<forall>i < length (attempts run) - 1.
             \<exists>e m. attempts run ! i = Inl e \<and> message e = Some m
               \<and> (includes_str m ''503'' \<or> includes_str m ''overloaded''
                    \<or> includes_str m ''Service Unavailable'')"
  proof (intro allI impI)
    fix i assume "i < length (attempts run) - 1"
    with inv obtain e where "attempts run ! i = Inl e" "isOverloaded e"
      by (auto simp: retryInv_def)
    then show "\<exists>e m. attempts run ! i = Inl e \<and> message e = Some m
               \<and> (includes_str m ''503'' \<or> includes_str m ''overloaded''
                    \<or> includes_str m ''Service Unavailable'')"
      by (auto simp: isOverloaded_iff)
  qed
  have outcome: "case result run of
             Inl e \<Rightarrow> attempts run \<noteq> [] \<and> last (attempts run) = Inl e
                      \<and> ((\<exists>m. message e = Some m
                             \<and> (includes_str m ''503'' \<or> includes_str m ''overloaded''
                                  \<or> includes_str m ''Service Unavailable''))
                           \<longrightarrow> int (length (attempts run)) = maxRetries)
           | Inr None \<Rightarrow> attempts run = [] \<and> maxRetries \<le> 0
           | Inr (Some v) \<Rightarrow> attempts run \<noteq> [] \<and> last (attempts run) = Inr v"
    using inv by (auto simp: retryInv_def isOverloaded_iff split: sum.splits option.splits)
  from inv have rest: "length (attempts run) \<le> nat maxRetries"
      "callsOf fn (length (attempts run)) s = (attempts run, s')"
      "delays run = map (\<lambda>i. baseDelay * 2 ^ i) [0..<length (attempts run) - 1]"
    by (auto simp: retryInv_def)
  from rest retried outcome show ?thesis by (intro conjI)
qed

theorem retryWithBackoff_policy_witness:
  "(case retryWithBackoff
      (\<lambda>n::nat. (if n < 2 then Inl (Error (Some ''503 Service Unavailable'')) else Inr n, Suc n))
      3 1000 0 of
      (run, s') \<Rightarrow>
        result run = Inr (Some 2) \<and> s' = 3
        \<and> length (attempts run) \<le> nat 3
        \<and> delays run = map (\<lambda>i. 1000 * 2 ^ i) [0..<length (attempts run) - 1]
        \<and> delays run = [1000, 2000]
        \<and> last (attempts run) = Inr 2)
   \<and> (case retryWithBackoff
      (\<lambda>n::nat. (Inl (Error (Some ''The model is overloaded'')) :: js_error + unit, Suc n))
      3 500 0 of
      (run, s') \<Rightarrow>
        result run = Inl (Error (Some ''The model is overloaded'')) \<and> s' = 3
        \<and> includes_str ''The model is overloaded'' ''overloaded''
        \<and> int (length (attempts run)) = 3
        \<and> delays run = [500, 1000]
        \<and> last (attempts run) = Inl (Error (Some ''The model is overloaded'')))
   \<and> (case retryWithBackoff
      (\<lambda>n::nat. (Inl (Error (Some ''[404 Not Found] no such model'')) :: js_error + unit, Suc n))
      3 500 0 of
      (run, s') \<Rightarrow>
        result run = Inl (Error (Some ''[404 Not Found] no such model'')) \<and> s' = 1
        \<and> attempts run = [Inl (Error (Some ''[404 Not Found] no such model''))]
        \<and> delays run = []
        \<and> length (attempts run) - 1 = 0)"
proof -
  have run: "retryWithBackoff
      (\<lambda>n::nat. (if n < 2 then Inl (Error (Some ''503 Service Unavailable'')) else Inr n, Suc n))
      3 1000 0
    = (\<lparr>result = Inr (Some 2),
        attempts = [Inl (Error (Some ''503 Service Unavailable'')),
                    Inl (Error (Some ''503 Service Unavailable'')), Inr 2],
        delays = [1000, 2000]\<rparr>, 3)"
    by (simp add: retryWithBackoff_def retryLoop.simps isOverloaded_def numeral_nat)
  have ov: "includes_str ''The model is overloaded'' ''overloaded''"
    by simp
  have exhausted: "retryWithBackoff
      (\<lambda>n::nat. (Inl (Error (Some ''The model is overloaded'')) :: js_error + unit, Suc n))
      3 500 0
    = (\<lparr>result = Inl (Error (Some ''The model is overloaded'')),
        attempts = [Inl (Error (Some ''The model is overloaded'')),
                    Inl (Error (Some ''The model is overloaded'')),
                    Inl (Error (Some ''The model is overloaded''))],
        delays = [500, 1000]\<rparr>, 3)"
    by (simp add: retryWithBackoff_def retryLoop.simps isOverloaded_def numeral_nat)
  have other: "retryWithBackoff
      (\<lambda>n::nat. (Inl (Error (Some ''[404 Not Found] no such model'')) :: js_error + unit, Suc n))
      3 500 0
    = (\<lparr>result = Inl (Error (Some ''[404 Not Found] no such model'')),
        attempts = [Inl (Error (Some ''[404 Not Found] no such model''))],
        delays = []\<rparr>, 1)"
    by (simp add: retryWithBackoff_def retryLoop.simps isOverloaded_def)
  from retryWithBackoff_policy [OF run] retryWithBackoff_policy [OF exhausted]
    retryWithBackoff_policy [OF other] ov
  show ?thesis
    by (simp add: run exhausted other)
qed

section \<open>The history adapter\<close>

lemma pushHistory_objects:
  "pushHistory chatHistory (map Obj ms) =
     Inr (chatHistory @ map (\<lambda>m. \<lparr>role = (if sender m = ''user'' then ''user'' else ''model''),
                              parts = [Part (msg_text m)]\<rparr>)
                     (filter (\<lambda>m. sender m = ''user'' \<or> sender m = ''bot'') ms))"
  by (induction ms arbitrary: chatHistory) auto

lemma pushHistory_null:
  "Null \<in> set es \<Longrightarrow>
   pushHistory chatHistory es = Inl (Error (Some ''Cannot read properties of null (reading 'sender')''))"
proof (induction es arbitrary: chatHistory)
  case Nil
  then show ?case by simp
next
  case (Cons x es)
  show ?case
  proof (cases x)
    case Null
    then show ?thesis by simp
  next
    case (Obj m)
    with Cons.prems have "Null \<in> set es" by simp
    with Cons.IH Obj show ?thesis by simp
  qed
qed

lemma buildHistoryForGemini_filter:
  "buildHistoryForGemini (Some (map Obj h)) newMessage =
     Inr (map (\<lambda>m. \<lparr>role = (if sender m = ''user'' then ''user'' else ''model''),
                              parts = [Part (msg_text m)]\<rparr>)
            (filter (\<lambda>m. sender m = ''user'' \<or> sender m = ''bot'') h)
          @ [\<lparr>role = ''user'', parts = [Part newMessage]\<rparr>])"
  by (simp add: buildHistoryForGemini_def pushHistory_objects)

lemma objectsOf_no_null: "Null \<notin> set h \<Longrightarrow> h = map Obj (objectsOf h)"
proof (induction h)
  case Nil
  then show ?case by simp
next
  case (Cons x h)
  then show ?case by (cases x) simp_all
qed

lemma buildHistoryForGemini_objects:
  assumes "buildHistoryForGemini (Some h) newMessage = Inr turns"
  shows "h = map Obj (objectsOf h)"
proof -
  have "Null \<notin> set h"
  proof
    assume "Null \<in> set h"
    from pushHistory_null [OF this, of "[]"] assms show False
      by (simp add: buildHistoryForGemini_def)
  qed
  then show ?thesis by (rule objectsOf_no_null)
qed

section \<open>C5: the turns of a history of user and bot messages\<close>

text \<open>
  C5, as the claim states it, fails in its last clause: the function is not defined on
  every input. On a history with a \<open>null\<close> entry it throws the TypeError of reading
  \<open>sender\<close> of \<open>null\<close>, and the request is answered 500 with that message.
\<close>

theorem buildHistoryForGemini_null_counterexample:
  "buildHistoryForGemini (Some [Null]) ''hi''
     = Inl (Error (Some ''Cannot read properties of null (reading 'sender')''))
   \<and> chatHandler
        \<lparr>generateContent = (\<lambda>name prompt u. (Inr (GenResult (Inr ''ok'')), u)),
         startChat = (\<lambda>name history u. (Inr (), u)),
         sendMessage = (\<lambda>name history txt u. (Inr (GenResult (Inr ''ok'')), u))\<rparr>
        (Some ''key'')
        \<lparr>req_message = JString ''hi'', req_history = Some [Null], req_userId = JUndefined\<rparr>
        \<lparr>cachedModelName = None, upstreamState = (), calls = []\<rparr>
     = (\<lparr>status = 500,
         body = ErrorBody ''Cannot read properties of null (reading 'sender')''\<rparr>,
        \<lparr>cachedModelName = None, upstreamState = (), calls = []\<rparr>)"
proof -
  have build: "buildHistoryForGemini (Some [Null]) ''hi''
     = Inl (Error (Some ''Cannot read properties of null (reading 'sender')''))"
    by (simp add: buildHistoryForGemini_def)
  have msg: "messageMissing (JString ''hi'') = Inr False" "trim ''hi'' = ''hi''"
    by (simp_all add: messageMissing_def trim_def stripLeading.simps whiteSpaces_def)
  have passes: "errorMessage (Error (Some ''Cannot read properties of null (reading 'sender')''))
      = ''Cannot read properties of null (reading 'sender')''"
    by (simp add: errorMessage_def)
  show ?thesis
    by (simp add: build chatHandler_def msg messageString_def truthyName_def chatBody_def
        trimmedHistory_def passes)
qed

text \<open>
  C5, amended. For a history of objects whose senders are all \<open>user\<close> or \<open>bot\<close> and
  any new message, \<open>buildHistoryForGemini\<close> returns one turn more than the history has
  entries; the last turn has role \<open>user\<close> and carries the new message; the turns before
  it are the history in order, \<open>user\<close> as role \<open>user\<close> and \<open>bot\<close> as role \<open>model\<close>.
  The function depends on its two arguments alone and returns on every history of
  objects; an empty and an absent history give the single turn of the new message. On a
  history with a \<open>null\<close> entry it does not return: it throws a TypeError.
\<close>

theorem buildHistoryForGemini_turns:
  assumes "\<forall>m \<in> set h. sender m = ''user'' \<or> sender m = ''bot''"
  shows "(\<exists>turns. buildHistoryForGemini (Some (map Obj h)) newMessage = Inr turns
            \<and> length turns = length h + 1
            \<and> last turns = \<lparr>role = ''user'', parts = [Part newMessage]\<rparr>
            \<and> butlast turns
                = map (\<lambda>m. \<lparr>role = (if sender m = ''user'' then ''user'' else ''model''),
                              parts = [Part (msg_text m)]\<rparr>) h)
       \<and> (\<exists>turns. buildHistoryForGemini (Some (map Obj anyObjects)) newMessage = Inr turns)
       \<and> buildHistoryForGemini (Some []) newMessage = Inr [\<lparr>role = ''user'', parts = [Part newMessage]\<rparr>]
       \<and> buildHistoryForGemini None newMessage = Inr [\<lparr>role = ''user'', parts = [Part newMessage]\<rparr>]
       \<and> (Null \<in> set es \<longrightarrow>
             buildHistoryForGemini (Some es) newMessage
               = Inl (Error (Some ''Cannot read properties of null (reading 'sender')'')))"
proof -
  from assms have "filter (\<lambda>m. sender m = ''user'' \<or> sender m = ''bot'') h = h"
    by (simp add: filter_id_conv)
  then have first: "\<exists>turns. buildHistoryForGemini (Some (map Obj h)) newMessage = Inr turns
            \<and> length turns = length h + 1
            \<and> last turns = \<lparr>role = ''user'', parts = [Part newMessage]\<rparr>
            \<and> butlast turns
                = map (\<lambda>m. \<lparr>role = (if sender m = ''user'' then ''user'' else ''model''),
                              parts = [Part (msg_text m)]\<rparr>) h"
    by (simp add: buildHistoryForGemini_filter)
  have objects: "\<exists>turns. buildHistoryForGemini (Some (map Obj anyObjects)) newMessage = Inr turns"
    by (simp add: buildHistoryForGemini_filter)
  have empty: "buildHistoryForGemini (Some []) newMessage = Inr [\<lparr>role = ''user'', parts = [Part newMessage]\<rparr>]"
      "buildHistoryForGemini None newMessage = Inr [\<lparr>role = ''user'', parts = [Part newMessage]\<rparr>]"
    by (simp_all add: buildHistoryForGemini_def)
  have null: "Null \<in> set es \<longrightarrow>
             buildHistoryForGemini (Some es) newMessage
               = Inl (Error (Some ''Cannot read properties of null (reading 'sender')''))"
    by (simp add: buildHistoryForGemini_def pushHistory_null)
  from first objects empty null show ?thesis by (intro conjI)
qed

theorem buildHistoryForGemini_turns_witness:
  "buildHistoryForGemini
      (Some [Obj \<lparr>sender = ''user'', msg_text = ''hello''\<rparr>, Obj \<lparr>sender = ''bot'', msg_text = ''hi there''\<rparr>])
      ''how are you''
    = Inr [\<lparr>role = ''user'', parts = [Part ''hello'']\<rparr>,
           \<lparr>role = ''model'', parts = [Part ''hi there'']\<rparr>,
           \<lparr>role = ''user'', parts = [Part ''how are you'']\<rparr>]
   \<and> buildHistoryForGemini
        (Some [Obj \<lparr>sender = ''user'', msg_text = ''hello''\<rparr>, Null]) ''how are you''
      = Inl (Error (Some ''Cannot read properties of null (reading 'sender')''))"
proof -
  have senders: "\<forall>m \<in> set [\<lparr>sender = ''user'', msg_text = ''hello''\<rparr>, \<lparr>sender = ''bot'', msg_text = ''hi there''\<rparr>].
          sender m = ''user'' \<or> sender m = ''bot''"
    by simp
  note all = buildHistoryForGemini_turns [OF senders, of "''how are you''" "[]"
      "[Obj \<lparr>sender = ''user'', msg_text = ''hello''\<rparr>, Null]"]
  from all obtain turns where turns: "buildHistoryForGemini
      (Some [Obj \<lparr>sender = ''user'', msg_text = ''hello''\<rparr>, Obj \<lparr>sender = ''bot'', msg_text = ''hi there''\<rparr>])
      ''how are you'' = Inr turns"
    "length turns = 3"
    "last turns = \<lparr>role = ''user'', parts = [Part ''how are you'']\<rparr>"
    "butlast turns = [\<lparr>role = ''user'', parts = [Part ''hello'']\<rparr>,
           \<lparr>role = ''model'', parts = [Part ''hi there'']\<rparr>]"
    by auto
  from turns(2) have "turns \<noteq> []" by auto
  then have "turns = butlast turns @ [last turns]" by simp
  with turns have ok: "buildHistoryForGemini
      (Some [Obj \<lparr>sender = ''user'', msg_text = ''hello''\<rparr>, Obj \<lparr>sender = ''bot'', msg_text = ''hi there''\<rparr>])
      ''how are you''
    = Inr [\<lparr>role = ''user'', parts = [Part ''hello'']\<rparr>,
           \<lparr>role = ''model'', parts = [Part ''hi there'']\<rparr>,
           \<lparr>role = ''user'', parts = [Part ''how are you'']\<rparr>]"
    by simp
  from all have thrown: "buildHistoryForGemini
        (Some [Obj \<lparr>sender = ''user'', msg_text = ''hello''\<rparr>, Null]) ''how are you''
      = Inl (Error (Some ''Cannot read properties of null (reading 'sender')''))"
    by simp
  show ?thesis by (rule conjI [OF ok thrown])
qed

section \<open>C10: entries whose sender is not recognised\<close>



section \<open>C3: the history the handler uses\<close>

text \<open>
  C3, as the claim states it, fails: the handler trims the history it is given. Of a
  history of 31 entries the first is discarded, and the conversation built has 31
  turns where the full history would give 32.
\<close>

theorem trimmedHistory_counterexample:
  "trimmedHistory (Some (Obj \<lparr>sender = ''user'', msg_text = ''first''\<rparr>
        # replicate 30 (Obj \<lparr>sender = ''bot'', msg_text = ''later''\<rparr>)))
     = replicate 30 (Obj \<lparr>sender = ''bot'', msg_text = ''later''\<rparr>)
   \<and> trimmedHistory (Some (Obj \<lparr>sender = ''user'', msg_text = ''first''\<rparr>
        # replicate 30 (Obj \<lparr>sender = ''bot'', msg_text = ''later''\<rparr>)))
     \<noteq> (Obj \<lparr>sender = ''user'', msg_text = ''first''\<rparr>
        # replicate 30 (Obj \<lparr>sender = ''bot'', msg_text = ''later''\<rparr>))
   \<and> map_sum id length (buildHistoryForGemini (Some (trimmedHistory (Some (Obj \<lparr>sender = ''user'', msg_text = ''first''\<rparr>
        # replicate 30 (Obj \<lparr>sender = ''bot'', msg_text = ''later''\<rparr>))))) ''new'')
       = Inr 31
   \<and> map_sum id length (buildHistoryForGemini (Some (Obj \<lparr>sender = ''user'', msg_text = ''first''\<rparr>
        # replicate 30 (Obj \<lparr>sender = ''bot'', msg_text = ''later''\<rparr>))) ''new'')
       = Inr 32"
proof -
  have objs: "replicate 30 (Obj \<lparr>sender = ''bot'', msg_text = ''later''\<rparr>)
      = map Obj (replicate 30 \<lparr>sender = ''bot'', msg_text = ''later''\<rparr>)"
    "(Obj \<lparr>sender = ''user'', msg_text = ''first''\<rparr>
        # replicate 30 (Obj \<lparr>sender = ''bot'', msg_text = ''later''\<rparr>))
      = map Obj (\<lparr>sender = ''user'', msg_text = ''first''\<rparr>
          # replicate 30 \<lparr>sender = ''bot'', msg_text = ''later''\<rparr>)"
    by simp_all
  have trimmed: "trimmedHistory (Some (Obj \<lparr>sender = ''user'', msg_text = ''first''\<rparr>
        # replicate 30 (Obj \<lparr>sender = ''bot'', msg_text = ''later''\<rparr>)))
     = replicate 30 (Obj \<lparr>sender = ''bot'', msg_text = ''later''\<rparr>)"
    by (simp add: trimmedHistory_def)
  have l31: "map_sum id length (buildHistoryForGemini
        (Some (replicate 30 (Obj \<lparr>sender = ''bot'', msg_text = ''later''\<rparr>))) ''new'') = Inr 31"
    unfolding objs(1) buildHistoryForGemini_filter by simp
  have l32: "map_sum id length (buildHistoryForGemini (Some (Obj \<lparr>sender = ''user'', msg_text = ''first''\<rparr>
        # replicate 30 (Obj \<lparr>sender = ''bot'', msg_text = ''later''\<rparr>))) ''new'')
       = Inr 32"
    unfolding objs(2) buildHistoryForGemini_filter by simp
  show ?thesis
    unfolding trimmed using l31 l32 by simp
qed

text \<open>
  C3, amended. The handler keeps the last 30 entries of the history: the kept entries
  are a suffix of the history of length \<open>min (length h) 30\<close>; a history of at most 30
  entries is kept whole; of a longer one exactly the leading \<open>length h - 30\<close> entries
  are discarded; a history that is not an array counts as empty.
\<close>

theorem trimmedHistory_last_30:
  "length (trimmedHistory (Some h)) = min (length h) 30
   \<and> suffix (trimmedHistory (Some h)) h
   \<and> (length h \<le> 30 \<longrightarrow> trimmedHistory (Some h) = h)
   \<and> (30 < length h \<longrightarrow> h = take (length h - 30) h @ trimmedHistory (Some h)
                          \<and> take (length h - 30) h \<noteq> [])
   \<and> trimmedHistory None = []"
proof -
  have "suffix (drop (length h - 30) h) h" by (rule suffix_drop)
  moreover have "30 < length h \<Longrightarrow> take (length h - 30) h \<noteq> []" by auto
  ultimately show ?thesis by (auto simp: trimmedHistory_def)
qed

theorem trimmedHistory_last_30_witness:
  "trimmedHistory (Some [Obj \<lparr>sender = ''user'', msg_text = ''hello''\<rparr>, Obj \<lparr>sender = ''bot'', msg_text = ''hi''\<rparr>])
     = [Obj \<lparr>sender = ''user'', msg_text = ''hello''\<rparr>, Obj \<lparr>sender = ''bot'', msg_text = ''hi''\<rparr>]
   \<and> 30 < length (replicate 31 (Obj \<lparr>sender = ''user'', msg_text = ''x''\<rparr>))
   \<and> length (trimmedHistory (Some (replicate 31 (Obj \<lparr>sender = ''user'', msg_text = ''x''\<rparr>)))) = 30"
  using trimmedHistory_last_30 [of "[Obj \<lparr>sender = ''user'', msg_text = ''hello''\<rparr>, Obj \<lparr>sender = ''bot'', msg_text = ''hi''\<rparr>]"]
    trimmedHistory_last_30 [of "replicate 31 (Obj \<lparr>sender = ''user'', msg_text = ''x''\<rparr>)"]
  by simp

section \<open>C4: letter case in the overload test\<close>

lemma toUpperCaseChar_not_lower:
  "\<not> (97 \<le> (of_char (toUpperCaseChar c) :: nat) \<and> (of_char (toUpperCaseChar c) :: nat) \<le> 122)"
  by (auto simp: toUpperCaseChar_def Let_def)

lemma toLowerCaseChar_not_upper:
  "\<not> (65 \<le> (of_char (toLowerCaseChar c) :: nat) \<and> (of_char (toLowerCaseChar c) :: nat) \<le> 90)"
  by (auto simp: toLowerCaseChar_def Let_def)

lemma upper_no_o: "CHR ''o'' \<notin> set (toUpperCase m)"
proof
  assume "CHR ''o'' \<in> set (toUpperCase m)"
  then obtain c where "toUpperCaseChar c = CHR ''o''" by (auto simp: toUpperCase_def)
  with toUpperCaseChar_not_lower [of c] show False by simp
qed

lemma upper_no_e: "CHR ''e'' \<notin> set (toUpperCase m)"
proof
  assume "CHR ''e'' \<in> set (toUpperCase m)"
  then obtain c where "toUpperCaseChar c = CHR ''e''" by (auto simp: toUpperCase_def)
  with toUpperCaseChar_not_lower [of c] show False by simp
qed

lemma lower_no_S: "CHR ''S'' \<notin> set (toLowerCase m)"
proof
  assume "CHR ''S'' \<in> set (toLowerCase m)"
  then obtain c where "toLowerCaseChar c = CHR ''S''" by (auto simp: toLowerCase_def)
  with toLowerCaseChar_not_upper [of c] show False by simp
qed

text \<open>
  C4, as the claim states it, fails: \<open>includes\<close> compares characters exactly. A
  message with \<open>overloaded\<close> is retried, the same message with \<open>OVERLOADED\<close> is not;
  \<open>Service Unavailable\<close> is an indicator, \<open>service unavailable\<close> is not.
\<close>

theorem isOverloaded_case_counterexample:
  "isOverloaded (Error (Some ''The model is overloaded''))
   \<and> \<not> isOverloaded (Error (Some ''The model is OVERLOADED''))
   \<and> isOverloaded (Error (Some ''Service Unavailable''))
   \<and> \<not> isOverloaded (Error (Some ''service unavailable''))
   \<and> length (attempts (fst (retryWithBackoff
         (\<lambda>s::unit. (Inl (Error (Some ''The model is overloaded'')) :: js_error + unit, s)) 3 1000 ()))) = 3
   \<and> length (attempts (fst (retryWithBackoff
         (\<lambda>s::unit. (Inl (Error (Some ''The model is OVERLOADED'')) :: js_error + unit, s)) 3 1000 ()))) = 1"
  by (simp add: isOverloaded_def retryWithBackoff_def retryLoop.simps)

text \<open>
  C4, amended. The overload test depends on letter case: a failure counts as overload
  exactly when its message contains \<open>503\<close>, \<open>overloaded\<close> or \<open>Service Unavailable\<close>
  as they are written here, whatever else the message contains. So once a message is put
  in upper case only \<open>503\<close> can still indicate overload, and once it is put in lower
  case only \<open>503\<close> and \<open>overloaded\<close> can. A failure whose message has none of the
  three as written is not retried: the run is that one call and fails with its error. A
  failure whose message has one of them is retried when a second attempt is allowed,
  after a sleep of \<open>baseDelay\<close>.
\<close>

theorem isOverloaded_letter_case:
  "(isOverloaded e \<longleftrightarrow>
       (\<exists>t. message e = Some t \<and> (includes_str t ''503'' \<or> includes_str t ''overloaded''
              \<or> includes_str t ''Service Unavailable'')))
   \<and> isOverloaded (Error (Some (toUpperCase m))) = includes_str (toUpperCase m) ''503''
   \<and> isOverloaded (Error (Some (toLowerCase m)))
       = (includes_str (toLowerCase m) ''503'' \<or> includes_str (toLowerCase m) ''overloaded'')
   \<and> (0 < maxRetries \<and> fn s = (Inl e, s')
        \<and> \<not> (\<exists>t. message e = Some t \<and> (includes_str t ''503'' \<or> includes_str t ''overloaded''
              \<or> includes_str t ''Service Unavailable''))
      \<longrightarrow> retryWithBackoff fn maxRetries baseDelay s
          = (\<lparr>result = Inl e, attempts = [Inl e], delays = []\<rparr>, s'))
   \<and> (1 < maxRetries \<and> fn s = (Inl e, s')
        \<and> (\<exists>t. message e = Some t \<and> (includes_str t ''503'' \<or> includes_str t ''overloaded''
              \<or> includes_str t ''Service Unavailable''))
      \<longrightarrow> 2 \<le> length (attempts (fst (retryWithBackoff fn maxRetries baseDelay s)))
          \<and> hd (attempts (fst (retryWithBackoff fn maxRetries baseDelay s))) = Inl e
          \<and> hd (delays (fst (retryWithBackoff fn maxRetries baseDelay s))) = baseDelay)"
proof -
  have exact: "isOverloaded e \<longleftrightarrow>
       (\<exists>t. message e = Some t \<and> (includes_str t ''503'' \<or> includes_str t ''overloaded''
              \<or> includes_str t ''Service Unavailable''))"
    by (rule isOverloaded_iff)
  have "\<not> includes_str (toUpperCase m) ''overloaded''"
    using includes_str_set [of "toUpperCase m" "''overloaded''"] upper_no_o [of m] by auto
  moreover have "\<not> includes_str (toUpperCase m) ''Service Unavailable''"
    using includes_str_set [of "toUpperCase m" "''Service Unavailable''"] upper_no_e [of m] by auto
  moreover have "\<not> includes_str (toLowerCase m) ''Service Unavailable''"
    using includes_str_set [of "toLowerCase m" "''Service Unavailable''"] lower_no_S [of m] by auto
  ultimately have test: "isOverloaded (Error (Some (toUpperCase m))) = includes_str (toUpperCase m) ''503''"
    "isOverloaded (Error (Some (toLowerCase m)))
       = (includes_str (toLowerCase m) ''503'' \<or> includes_str (toLowerCase m) ''overloaded'')"
    by (simp_all add: isOverloaded_def)
  have once: "0 < maxRetries \<and> fn s = (Inl e, s')
        \<and> \<not> (\<exists>t. message e = Some t \<and> (includes_str t ''503'' \<or> includes_str t ''overloaded''
              \<or> includes_str t ''Service Unavailable''))
      \<longrightarrow> retryWithBackoff fn maxRetries baseDelay s
          = (\<lparr>result = Inl e, attempts = [Inl e], delays = []\<rparr>, s')"
  proof
    assume a: "0 < maxRetries \<and> fn s = (Inl e, s')
        \<and> \<not> (\<exists>t. message e = Some t \<and> (includes_str t ''503'' \<or> includes_str t ''overloaded''
              \<or> includes_str t ''Service Unavailable''))"
    then have no: "\<not> (isOverloaded e \<and> 0 < maxRetries - 1)"
      using exact by blast
    from a have pos: "0 < maxRetries" and f: "fn s = (Inl e, s')" by simp_all
    show "retryWithBackoff fn maxRetries baseDelay s
          = (\<lparr>result = Inl e, attempts = [Inl e], delays = []\<rparr>, s')"
      unfolding retryWithBackoff_def
      by (rule retryLoop_throw [where fn = fn and s = s, OF pos f no])
  qed
  have again: "1 < maxRetries \<and> fn s = (Inl e, s')
        \<and> (\<exists>t. message e = Some t \<and> (includes_str t ''503'' \<or> includes_str t ''overloaded''
              \<or> includes_str t ''Service Unavailable''))
      \<longrightarrow> 2 \<le> length (attempts (fst (retryWithBackoff fn maxRetries baseDelay s)))
          \<and> hd (attempts (fst (retryWithBackoff fn maxRetries baseDelay s))) = Inl e
          \<and> hd (delays (fst (retryWithBackoff fn maxRetries baseDelay s))) = baseDelay"
  proof
    assume a: "1 < maxRetries \<and> fn s = (Inl e, s')
        \<and> (\<exists>t. message e = Some t \<and> (includes_str t ''503'' \<or> includes_str t ''overloaded''
              \<or> includes_str t ''Service Unavailable''))"
    then have ov: "isOverloaded e" using exact by blast
    from a have lt: "0 < maxRetries - 1" and f: "fn s = (Inl e, s')" by simp_all
    obtain run s2 where rest: "retryLoop fn maxRetries baseDelay (0 + 1) s' = (run, s2)"
      by (cases "retryLoop fn maxRetries baseDelay (0 + 1) s'")
    have inv: "retryInv fn maxRetries baseDelay (0 + 1) s' run s2"
      by (rule retryLoop_inv [OF _ rest]) simp
    have ne: "attempts run \<noteq> []"
      using inv a by (auto simp: retryInv_def split: sum.splits option.splits)
    have "retryWithBackoff fn maxRetries baseDelay s
        = (run\<lparr>attempts := Inl e # attempts run,
               delays := baseDelay * 2 ^ nat 0 # delays run\<rparr>, s2)"
      unfolding retryWithBackoff_def
      by (rule retryLoop_retry [where fn = fn and s = s, OF lt f ov rest])
    with ne show "2 \<le> length (attempts (fst (retryWithBackoff fn maxRetries baseDelay s)))
          \<and> hd (attempts (fst (retryWithBackoff fn maxRetries baseDelay s))) = Inl e
          \<and> hd (delays (fst (retryWithBackoff fn maxRetries baseDelay s))) = baseDelay"
      by (cases "attempts run") simp_all
  qed
  from exact test once again show ?thesis by (intro conjI)
qed

theorem isOverloaded_letter_case_witness:
  "\<not> isOverloaded (Error (Some ''Model Overloaded, service unavailable''))
   \<and> retryWithBackoff
        (\<lambda>s::unit. (Inl (Error (Some ''Model Overloaded, service unavailable'')) :: js_error + unit, s))
        3 1000 ()
      = (\<lparr>result = Inl (Error (Some ''Model Overloaded, service unavailable'')),
          attempts = [Inl (Error (Some ''Model Overloaded, service unavailable''))],
          delays = []\<rparr>, ())
   \<and> isOverloaded (Error (Some ''Model overloaded''))
   \<and> 2 \<le> length (attempts (fst (retryWithBackoff
        (\<lambda>s::unit. (Inl (Error (Some ''Model overloaded'')) :: js_error + unit, s)) 3 1000 ())))
   \<and> hd (delays (fst (retryWithBackoff
        (\<lambda>s::unit. (Inl (Error (Some ''Model overloaded'')) :: js_error + unit, s)) 3 1000 ())))
      = 1000"
proof -
  have no: "\<not> (\<exists>t. message (Error (Some ''Model Overloaded, service unavailable'')) = Some t
      \<and> (includes_str t ''503'' \<or> includes_str t ''overloaded''
              \<or> includes_str t ''Service Unavailable''))"
    by simp
  have yes: "\<exists>t. message (Error (Some ''Model overloaded'')) = Some t
      \<and> (includes_str t ''503'' \<or> includes_str t ''overloaded''
              \<or> includes_str t ''Service Unavailable'')"
    by simp
  note mixed = isOverloaded_letter_case [of "Error (Some ''Model Overloaded, service unavailable'')"
      "[]" 3
      "\<lambda>s::unit. (Inl (Error (Some ''Model Overloaded, service unavailable'')) :: js_error + unit, s)"
      "()" "()" 1000]
  note exact = isOverloaded_letter_case [of "Error (Some ''Model overloaded'')"
      "[]" 3
      "\<lambda>s::unit. (Inl (Error (Some ''Model overloaded'')) :: js_error + unit, s)"
      "()" "()" 1000]
  from mixed no have m1: "\<not> isOverloaded (Error (Some ''Model Overloaded, service unavailable''))"
    and m2: "retryWithBackoff
        (\<lambda>s::unit. (Inl (Error (Some ''Model Overloaded, service unavailable'')) :: js_error + unit, s))
        3 1000 ()
      = (\<lparr>result = Inl (Error (Some ''Model Overloaded, service unavailable'')),
          attempts = [Inl (Error (Some ''Model Overloaded, service unavailable''))],
          delays = []\<rparr>, ())"
    by simp_all
  from exact yes have e1: "isOverloaded (Error (Some ''Model overloaded''))"
    and e2: "2 \<le> length (attempts (fst (retryWithBackoff
        (\<lambda>s::unit. (Inl (Error (Some ''Model overloaded'')) :: js_error + unit, s)) 3 1000 ())))"
    and e3: "hd (delays (fst (retryWithBackoff
        (\<lambda>s::unit. (Inl (Error (Some ''Model overloaded'')) :: js_error + unit, s)) 3 1000 ())))
      = 1000"
    by simp_all
  from m1 m2 e1 e2 e3 show ?thesis by (intro conjI)
qed

section \<open>C6: the error message of a failed request\<close>

text \<open>
  C6, as the claim states it, fails for an error whose message is empty: it matches no
  category, and the text sent is not the message but the fixed default.
\<close>

theorem errorMessage_empty_counterexample:
  "errorMessage (Error (Some [])) = ''Error communicating with Gemini API''
   \<and> errorMessage (Error (Some [])) \<noteq> []"
  by (simp add: errorMessage_def defaultErrorMessage_def)


text \<open>
  C6, amended. For a non-empty message the text sent is decided by the first test that
  succeeds, in the order overloaded, not found, unauthorized, forbidden, rate limited;
  a message that passes none of them is sent as it is. An empty or undefined message
  gives the default text. The six fixed texts are pairwise different, so a message that
  matches an earlier category is never given the text of a later one.
\<close>

theorem errorMessage_precedence:
  "(m \<noteq> [] \<longrightarrow>
      errorMessage (Error (Some m)) =
       (if includes_str m ''503'' \<or> includes_str m ''overloaded''
           \<or> includes_str m ''Service Unavailable'' then overloadedTemplate
        else if includes_str m ''404'' \<or> includes_str m ''not found'' then notFoundTemplate
        else if includes_str m ''401'' \<or> includes_str m ''API key'' then unauthorizedTemplate
        else if includes_str m ''403'' then forbiddenTemplate
        else if includes_str m ''429'' \<or> includes_str m ''rate limit'' then rateLimitedTemplate
        else m))
   \<and> errorMessage (Error (Some [])) = defaultErrorMessage
   \<and> errorMessage (Error None) = defaultErrorMessage
   \<and> distinct [overloadedTemplate, notFoundTemplate, unauthorizedTemplate, forbiddenTemplate,
        rateLimitedTemplate, defaultErrorMessage]"
  by (simp add: errorMessage_def overloadedTemplate_def notFoundTemplate_def
      unauthorizedTemplate_def forbiddenTemplate_def rateLimitedTemplate_def defaultErrorMessage_def)

theorem errorMessage_precedence_witness:
  "errorMessage (Error (Some ''[404 Not Found] models/x is not found; 429 later'')) = notFoundTemplate
   \<and> errorMessage (Error (Some ''fetch failed'')) = ''fetch failed''"
  using errorMessage_precedence [of "''[404 Not Found] models/x is not found; 429 later''"]
    errorMessage_precedence [of "''fetch failed''"]
  by simp


section \<open>C7: the two checks before any upstream call\<close>

declare stripLeading.simps [simp del]

lemma stripLeading_Nil: "stripLeading wss [] = []"
proof -
  have "find (\<lambda>ws. ws \<noteq> [] \<and> prefix ws []) wss = None"
    by (simp add: find_None_iff)
  then show ?thesis by (subst stripLeading.simps) simp
qed

lemma stripLeading_none:
  "find (\<lambda>ws. ws \<noteq> [] \<and> prefix ws (stripLeading wss s)) wss = None"
proof (induction wss s rule: stripLeading.induct)
  case (1 wss s)
  show ?case
  proof (cases "find (\<lambda>ws. ws \<noteq> [] \<and> prefix ws s) wss")
    case None
    then have "stripLeading wss s = s" by (subst stripLeading.simps) simp
    with None show ?thesis by simp
  next
    case (Some ws)
    then have "stripLeading wss s = stripLeading wss (drop (length ws) s)"
      by (subst stripLeading.simps) simp
    with 1 [OF Some] show ?thesis by simp
  qed
qed

lemma stripLeading_concat:
  "stripLeading wss s = [] \<Longrightarrow> \<exists>xs. set xs \<subseteq> {ws \<in> set wss. ws \<noteq> []} \<and> s = concat xs"
proof (induction wss s rule: stripLeading.induct)
  case (1 wss s)
  show ?case
  proof (cases "find (\<lambda>ws. ws \<noteq> [] \<and> prefix ws s) wss")
    case None
    then have "stripLeading wss s = s" by (subst stripLeading.simps) simp
    with "1.prems" have "s = concat []" by simp
    then show ?thesis by (metis (no_types, lifting) empty_set empty_subsetI)
  next
    case (Some ws)
    then have eq: "stripLeading wss s = stripLeading wss (drop (length ws) s)"
      by (subst stripLeading.simps) simp
    from Some have ws: "ws \<in> set wss" "ws \<noteq> []" "prefix ws s"
      by (auto simp: find_Some_iff)
    from "1.IH" [OF Some] "1.prems" eq obtain xs where
      xs: "set xs \<subseteq> {ws \<in> set wss. ws \<noteq> []}" "drop (length ws) s = concat xs"
      by auto
    from ws(3) have "s = ws @ drop (length ws) s" by (auto simp: prefix_def)
    with xs(2) have "s = concat (ws # xs)" by simp
    moreover from xs(1) ws have "set (ws # xs) \<subseteq> {ws \<in> set wss. ws \<noteq> []}" by simp
    ultimately show ?thesis by blast
  qed
qed

lemma concat_head_prefix:
  "set xs \<subseteq> {ws \<in> W. ws \<noteq> []} \<Longrightarrow> concat xs \<noteq> [] \<Longrightarrow>
   \<exists>ws \<in> W. ws \<noteq> [] \<and> prefix ws (concat xs)"
  by (cases xs) auto

lemma trim_blank: "trim s = [] \<longleftrightarrow> blank s"
proof
  assume "blank s"
  then show "trim s = []" by (simp add: trim_def blank_def stripLeading_Nil)
next
  assume t: "trim s = []"
  let ?t = "stripLeading whiteSpaces s"
  from t have "stripLeading (map rev whiteSpaces) (rev ?t) = []" by (simp add: trim_def)
  from stripLeading_concat [OF this] obtain xs where
    xs: "set xs \<subseteq> {ws \<in> set (map rev whiteSpaces). ws \<noteq> []}" "rev ?t = concat xs" by blast
  have t_eq: "?t = concat (map rev (rev xs))"
    using xs(2) by (metis rev_concat rev_rev_ident)
  have sub: "set (map rev (rev xs)) \<subseteq> {ws \<in> set whiteSpaces. ws \<noteq> []}"
    using xs(1) by auto
  show "blank s"
  proof (rule ccontr)
    assume "\<not> blank s"
    then have "concat (map rev (rev xs)) \<noteq> []" using t_eq by (simp add: blank_def)
    from concat_head_prefix [OF sub this] obtain ws where
      "ws \<in> set whiteSpaces" "ws \<noteq> []" "prefix ws ?t" using t_eq by auto
    then have "find (\<lambda>ws. ws \<noteq> [] \<and> prefix ws ?t) whiteSpaces \<noteq> None"
      by (auto simp: find_None_iff)
    with stripLeading_none [of whiteSpaces s] show False by simp
  qed
qed

lemma messageMissing_blank: "blank s \<Longrightarrow> messageMissing (JString s) = Inr True"
  by (simp add: messageMissing_def trim_blank)

lemma messageMissing_text: "\<not> blank s \<Longrightarrow> messageMissing (JString s) = Inr False"
proof -
  assume nb: "\<not> blank s"
  then have "s \<noteq> []" by (auto simp: blank_def stripLeading_Nil)
  with nb show ?thesis by (simp add: messageMissing_def trim_blank)
qed

text \<open>
  C7, as the claim states it, fails where its two cases meet: a request with a blank
  message that arrives while no API key is configured is answered 400, not 500,
  because the message is checked first.
\<close>

theorem chatHandler_blank_without_key_counterexample:
  "fst (chatHandler
      \<lparr>generateContent = (\<lambda>name prompt u. (Inr (GenResult (Inr ''ok'')), u)),
       startChat = (\<lambda>name history u. (Inr (), u)),
       sendMessage = (\<lambda>name history txt u. (Inr (GenResult (Inr ''ok'')), u))\<rparr>
      None
      \<lparr>req_message = JString '' '', req_history = None, req_userId = JUndefined\<rparr>
      \<lparr>cachedModelName = None, upstreamState = (), calls = []\<rparr>)
    = \<lparr>status = 400, body = ErrorBody ''message is required''\<rparr>
   \<and> status (fst (chatHandler
      \<lparr>generateContent = (\<lambda>name prompt u. (Inr (GenResult (Inr ''ok'')), u)),
       startChat = (\<lambda>name history u. (Inr (), u)),
       sendMessage = (\<lambda>name history txt u. (Inr (GenResult (Inr ''ok'')), u))\<rparr>
      None
      \<lparr>req_message = JString '' '', req_history = None, req_userId = JUndefined\<rparr>
      \<lparr>cachedModelName = None, upstreamState = (), calls = []\<rparr>)) \<noteq> 500"
proof -
  have "blank '' ''" by (simp add: blank_def stripLeading.simps whiteSpaces_def)
  then have "messageMissing (JString '' '') = Inr True" by (rule messageMissing_blank)
  then show ?thesis by (simp add: chatHandler_def)
qed

text \<open>
  C7, amended. A request whose message is absent or blank is answered 400 with
  \<open>message is required\<close>. A request whose message is a string that is not blank,
  arriving while the API key is unset or empty, is answered 500 with
  \<open>Gemini API key not configured\<close>. In both cases the state after the request is the
  state before it: no call was logged, the upstream state and \<open>cachedModelName\<close> are
  unchanged.
\<close>

theorem chatHandler_preconditions:
  "((req_message req = JUndefined \<or> req_message req = JNull
       \<or> (\<exists>s. req_message req = JString s \<and> blank s))
      \<longrightarrow> chatHandler up apiKey req w
            = (\<lparr>status = 400, body = ErrorBody ''message is required''\<rparr>, w))
   \<and> ((\<exists>s. req_message req = JString s \<and> \<not> blank s) \<and> (apiKey = None \<or> apiKey = Some [])
      \<longrightarrow> chatHandler up apiKey req w
            = (\<lparr>status = 500, body = ErrorBody ''Gemini API key not configured''\<rparr>, w))"
proof (intro conjI impI)
  assume "req_message req = JUndefined \<or> req_message req = JNull
       \<or> (\<exists>s. req_message req = JString s \<and> blank s)"
  then have "messageMissing (req_message req) = Inr True"
  proof (elim disjE exE conjE)
    fix s assume "req_message req = JString s" "blank s"
    then show ?thesis by (simp add: messageMissing_blank)
  qed (simp_all add: messageMissing_def)
  then show "chatHandler up apiKey req w
            = (\<lparr>status = 400, body = ErrorBody ''message is required''\<rparr>, w)"
    by (simp add: chatHandler_def)
next
  assume a: "(\<exists>s. req_message req = JString s \<and> \<not> blank s) \<and> (apiKey = None \<or> apiKey = Some [])"
  then have "messageMissing (req_message req) = Inr False"
    using messageMissing_text by auto
  moreover from a have "\<not> truthyName apiKey" by (auto simp: truthyName_def)
  ultimately show "chatHandler up apiKey req w
            = (\<lparr>status = 500, body = ErrorBody ''Gemini API key not configured''\<rparr>, w)"
    by (simp add: chatHandler_def)
qed

theorem chatHandler_preconditions_witness:
  "chatHandler
      \<lparr>generateContent = (\<lambda>name prompt u. (Inr (GenResult (Inr ''ok'')), u)),
       startChat = (\<lambda>name history u. (Inr (), u)),
       sendMessage = (\<lambda>name history txt u. (Inr (GenResult (Inr ''ok'')), u))\<rparr>
      None \<lparr>req_message = JString ''   '', req_history = None, req_userId = JUndefined\<rparr>
      \<lparr>cachedModelName = Some ''gemini-2.5-pro'', upstreamState = (), calls = []\<rparr>
     = (\<lparr>status = 400, body = ErrorBody ''message is required''\<rparr>,
        \<lparr>cachedModelName = Some ''gemini-2.5-pro'', upstreamState = (), calls = []\<rparr>)
   \<and> chatHandler
      \<lparr>generateContent = (\<lambda>name prompt u. (Inr (GenResult (Inr ''ok'')), u)),
       startChat = (\<lambda>name history u. (Inr (), u)),
       sendMessage = (\<lambda>name history txt u. (Inr (GenResult (Inr ''ok'')), u))\<rparr>
      None \<lparr>req_message = JString [CHR 0xC2, CHR 0xA0], req_history = None, req_userId = JUndefined\<rparr>
      \<lparr>cachedModelName = Some ''gemini-2.5-pro'', upstreamState = (), calls = []\<rparr>
     = (\<lparr>status = 400, body = ErrorBody ''message is required''\<rparr>,
        \<lparr>cachedModelName = Some ''gemini-2.5-pro'', upstreamState = (), calls = []\<rparr>)
   \<and> chatHandler
      \<lparr>generateContent = (\<lambda>name prompt u. (Inr (GenResult (Inr ''ok'')), u)),
       startChat = (\<lambda>name history u. (Inr (), u)),
       sendMessage = (\<lambda>name history txt u. (Inr (GenResult (Inr ''ok'')), u))\<rparr>
      None \<lparr>req_message = JString ''hi'', req_history = None, req_userId = JUndefined\<rparr>
      \<lparr>cachedModelName = Some ''gemini-2.5-pro'', upstreamState = (), calls = []\<rparr>
     = (\<lparr>status = 500, body = ErrorBody ''Gemini API key not configured''\<rparr>,
        \<lparr>cachedModelName = Some ''gemini-2.5-pro'', upstreamState = (), calls = []\<rparr>)"
proof -
  have b1: "blank ''   ''" and b2: "blank [CHR 0xC2, CHR 0xA0]" and b3: "\<not> blank ''hi''"
    by (simp_all add: blank_def stripLeading.simps whiteSpaces_def)
  from chatHandler_preconditions
      [of "\<lparr>req_message = JString ''   '', req_history = None, req_userId = JUndefined\<rparr>"
        "\<lparr>generateContent = (\<lambda>name prompt u. (Inr (GenResult (Inr ''ok'')), u)),
       startChat = (\<lambda>name history u. (Inr (), u)),
       sendMessage = (\<lambda>name history txt u. (Inr (GenResult (Inr ''ok'')), u))\<rparr>"
        None "\<lparr>cachedModelName = Some ''gemini-2.5-pro'', upstreamState = (), calls = []\<rparr>"] b1
  have c1: "chatHandler
      \<lparr>generateContent = (\<lambda>name prompt u. (Inr (GenResult (Inr ''ok'')), u)),
       startChat = (\<lambda>name history u. (Inr (), u)),
       sendMessage = (\<lambda>name history txt u. (Inr (GenResult (Inr ''ok'')), u))\<rparr>
      None \<lparr>req_message = JString ''   '', req_history = None, req_userId = JUndefined\<rparr>
      \<lparr>cachedModelName = Some ''gemini-2.5-pro'', upstreamState = (), calls = []\<rparr>
     = (\<lparr>status = 400, body = ErrorBody ''message is required''\<rparr>,
        \<lparr>cachedModelName = Some ''gemini-2.5-pro'', upstreamState = (), calls = []\<rparr>)"
    by simp
  from chatHandler_preconditions
      [of "\<lparr>req_message = JString [CHR 0xC2, CHR 0xA0], req_history = None, req_userId = JUndefined\<rparr>"
        "\<lparr>generateContent = (\<lambda>name prompt u. (Inr (GenResult (Inr ''ok'')), u)),
       startChat = (\<lambda>name history u. (Inr (), u)),
       sendMessage = (\<lambda>name history txt u. (Inr (GenResult (Inr ''ok'')), u))\<rparr>"
        None "\<lparr>cachedModelName = Some ''gemini-2.5-pro'', upstreamState = (), calls = []\<rparr>"] b2
  have c2: "chatHandler
      \<lparr>generateContent = (\<lambda>name prompt u. (Inr (GenResult (Inr ''ok'')), u)),
       startChat = (\<lambda>name history u. (Inr (), u)),
       sendMessage = (\<lambda>name history txt u. (Inr (GenResult (Inr ''ok'')), u))\<rparr>
      None \<lparr>req_message = JString [CHR 0xC2, CHR 0xA0], req_history = None, req_userId = JUndefined\<rparr>
      \<lparr>cachedModelName = Some ''gemini-2.5-pro'', upstreamState = (), calls = []\<rparr>
     = (\<lparr>status = 400, body = ErrorBody ''message is required''\<rparr>,
        \<lparr>cachedModelName = Some ''gemini-2.5-pro'', upstreamState = (), calls = []\<rparr>)"
    by simp
  from chatHandler_preconditions
      [of "\<lparr>req_message = JString ''hi'', req_history = None, req_userId = JUndefined\<rparr>"
        "\<lparr>generateContent = (\<lambda>name prompt u. (Inr (GenResult (Inr ''ok'')), u)),
       startChat = (\<lambda>name history u. (Inr (), u)),
       sendMessage = (\<lambda>name history txt u. (Inr (GenResult (Inr ''ok'')), u))\<rparr>"
        None "\<lparr>cachedModelName = Some ''gemini-2.5-pro'', upstreamState = (), calls = []\<rparr>"] b3
  have c3: "chatHandler
      \<lparr>generateContent = (\<lambda>name prompt u. (Inr (GenResult (Inr ''ok'')), u)),
       startChat = (\<lambda>name history u. (Inr (), u)),
       sendMessage = (\<lambda>name history txt u. (Inr (GenResult (Inr ''ok'')), u))\<rparr>
      None \<lparr>req_message = JString ''hi'', req_history = None, req_userId = JUndefined\<rparr>
      \<lparr>cachedModelName = Some ''gemini-2.5-pro'', upstreamState = (), calls = []\<rparr>
     = (\<lparr>status = 500, body = ErrorBody ''Gemini API key not configured''\<rparr>,
        \<lparr>cachedModelName = Some ''gemini-2.5-pro'', upstreamState = (), calls = []\<rparr>)"
    by simp
  from c1 c2 c3 show ?thesis by (intro conjI)
qed

section \<open>What the upstream calls do to the state\<close>

lemma callGenerateContent_world:
  "callGenerateContent up name prompt w = (r, w') \<Longrightarrow>
   calls w' = calls w @ [GenerateContent name prompt] \<and> cachedModelName w' = cachedModelName w"
  by (auto simp: callGenerateContent_def split: prod.splits)

lemma probe_world:
  "probe up name w = (r, w') \<Longrightarrow>
   calls w' = calls w @ [GenerateContent name ''test''] \<and> cachedModelName w' = cachedModelName w"
  by (auto simp: probe_def split: prod.splits sum.splits dest: callGenerateContent_world)

lemma callsOf_world:
  assumes step: "\<And>w r w'. fn w = (r, w') \<Longrightarrow>
      calls w' = calls w @ [c] \<and> cachedModelName w' = cachedModelName w"
  shows "callsOf fn k w = (rs, w') \<Longrightarrow>
      calls w' = calls w @ replicate k c \<and> cachedModelName w' = cachedModelName w"
proof (induction k arbitrary: w rs w')
  case 0
  then show ?case by simp
next
  case (Suc k)
  obtain r w1 where f: "fn w = (r, w1)" by (cases "fn w")
  obtain rs1 w2 where c: "callsOf fn k w1 = (rs1, w2)" by (cases "callsOf fn k w1")
  from Suc.prems f c have "w' = w2" by simp
  with Suc.IH [OF c] step [OF f] show ?case
    by (simp add: replicate_append_same)
qed

lemma retryWithBackoff_world:
  assumes step: "\<And>w r w'. fn w = (r, w') \<Longrightarrow>
      calls w' = calls w @ [c] \<and> cachedModelName w' = cachedModelName w"
    and run: "retryWithBackoff fn maxRetries baseDelay w = (run, w')"
  shows "calls w' = calls w @ replicate (length (attempts run)) c
       \<and> cachedModelName w' = cachedModelName w"
proof -
  from run have "retryLoop fn maxRetries baseDelay 0 w = (run, w')"
    by (simp add: retryWithBackoff_def)
  then have "retryInv fn maxRetries baseDelay 0 w run w'"
    by (rule retryLoop_inv [rotated]) simp
  then have "callsOf fn (length (attempts run)) w = (attempts run, w')"
    by (simp add: retryInv_def)
  then show ?thesis
    using step by (rule callsOf_world [where fn = fn and c = c, rotated])
qed

lemma retryWithBackoff_attempts:
  assumes run: "retryWithBackoff fn maxRetries baseDelay w = (run, w')" and pos: "0 < maxRetries"
  shows "1 \<le> length (attempts run) \<and> length (attempts run) \<le> nat maxRetries
       \<and> result run \<noteq> Inr None"
proof -
  from run have "retryLoop fn maxRetries baseDelay 0 w = (run, w')"
    by (simp add: retryWithBackoff_def)
  then have "retryInv fn maxRetries baseDelay 0 w run w'"
    by (rule retryLoop_inv [rotated]) simp
  with pos show ?thesis
    by (cases "attempts run") (auto simp: retryInv_def split: sum.splits option.splits)
qed


lemma callsOf_cache:
  assumes step: "\<And>w r w'. fn w = (r, w') \<Longrightarrow> cachedModelName w' = cachedModelName w"
  shows "callsOf fn k w = (rs, w') \<Longrightarrow> cachedModelName w' = cachedModelName w"
proof (induction k arbitrary: w rs w')
  case 0
  then show ?case by simp
next
  case (Suc k)
  obtain r w1 where f: "fn w = (r, w1)" by (cases "fn w")
  obtain rs1 w2 where c: "callsOf fn k w1 = (rs1, w2)" by (cases "callsOf fn k w1")
  from Suc.prems f c have "w' = w2" by simp
  with Suc.IH [OF c] step [OF f] show ?case by simp
qed

lemma retryWithBackoff_cache:
  assumes step: "\<And>w r w'. fn w = (r, w') \<Longrightarrow> cachedModelName w' = cachedModelName w"
    and run: "retryWithBackoff fn maxRetries baseDelay w = (run, w')"
  shows "cachedModelName w' = cachedModelName w"
proof -
  from run have "retryLoop fn maxRetries baseDelay 0 w = (run, w')"
    by (simp add: retryWithBackoff_def)
  then have "retryInv fn maxRetries baseDelay 0 w run w'"
    by (rule retryLoop_inv [rotated]) simp
  then have "callsOf fn (length (attempts run)) w = (attempts run, w')"
    by (simp add: retryInv_def)
  then show ?thesis
    using step by (rule callsOf_cache [where fn = fn, rotated])
qed

lemma callGenerateContent_cache:
  "callGenerateContent up name prompt w = (r, w') \<Longrightarrow> cachedModelName w' = cachedModelName w"
  by (simp add: callGenerateContent_world)

lemma callStartChat_cache:
  "callStartChat up name history w = (r, w') \<Longrightarrow> cachedModelName w' = cachedModelName w"
  by (auto simp: callStartChat_def split: prod.splits)

lemma sendCurrent_cache:
  "sendCurrent up name historyForChat conversationHistory w = (r, w') \<Longrightarrow>
   cachedModelName w' = cachedModelName w"
  by (auto simp: sendCurrent_def callSendMessage_def split: sum.splits prod.splits)

lemma primaryPath_cache:
  assumes "primaryPath up name conversationHistory trimmedMessage w = (r, w')"
  shows "cachedModelName w' = cachedModelName w"
proof (cases "length (butlast conversationHistory) > 0")
  case True
  have unfold: "primaryPath up name conversationHistory trimmedMessage w =
      (case callStartChat up name (butlast conversationHistory) w of
           (Inl err, w1) \<Rightarrow> (Inl err, w1)
         | (Inr chat, w1) \<Rightarrow>
             (case retryWithBackoff
                     (sendCurrent up name (butlast conversationHistory) conversationHistory)
                     3 1000 w1 of
                (run, w2) \<Rightarrow> (replyTextOf (result run), w2)))"
    unfolding primaryPath_def Let_def by (rule if_P) (fact True)
  obtain c w1 where start: "callStartChat up name (butlast conversationHistory) w = (c, w1)"
    by (cases "callStartChat up name (butlast conversationHistory) w")
  note c1 = callStartChat_cache [OF start]
  show ?thesis
  proof (cases c)
    case (Inl err)
    with assms start c1 show ?thesis unfolding unfold by simp
  next
    case (Inr chat)
    obtain run w2 where send: "retryWithBackoff
        (sendCurrent up name (butlast conversationHistory) conversationHistory) 3 1000 w1 = (run, w2)"
      by (cases "retryWithBackoff
        (sendCurrent up name (butlast conversationHistory) conversationHistory) 3 1000 w1")
    have "cachedModelName w2 = cachedModelName w1"
      using sendCurrent_cache send by (rule retryWithBackoff_cache)
    with assms start Inr send c1 show ?thesis unfolding unfold by simp
  qed
next
  case False
  have unfold: "primaryPath up name conversationHistory trimmedMessage w =
      (case retryWithBackoff (callGenerateContent up name trimmedMessage) 3 1000 w of
           (run, w2) \<Rightarrow> (replyTextOf (result run), w2))"
    unfolding primaryPath_def Let_def by (rule if_not_P) (fact False)
  obtain run w2 where gen: "retryWithBackoff
      (callGenerateContent up name trimmedMessage) 3 1000 w = (run, w2)"
    by (cases "retryWithBackoff (callGenerateContent up name trimmedMessage) 3 1000 w")
  have "cachedModelName w2 = cachedModelName w"
    using callGenerateContent_cache gen by (rule retryWithBackoff_cache)
  with assms gen show ?thesis unfolding unfold by simp
qed

lemma invoke_cache:
  assumes "invoke up name trimmedHist conversationHistory trimmedMessage w = (r, w')"
  shows "cachedModelName w' = cachedModelName w"
proof -
  obtain p w1 where prim: "primaryPath up name conversationHistory trimmedMessage w = (p, w1)"
    by (cases "primaryPath up name conversationHistory trimmedMessage w")
  note c1 = primaryPath_cache [OF prim]
  show ?thesis
  proof (cases p)
    case (Inr replyText)
    with assms prim c1 show ?thesis by (simp add: invoke_def)
  next
    case (Inl chatError)
    obtain run w2 where fb: "retryWithBackoff
        (callGenerateContent up name (fallbackPrompt trimmedHist trimmedMessage)) 3 1000 w1
        = (run, w2)"
      by (cases "retryWithBackoff
        (callGenerateContent up name (fallbackPrompt trimmedHist trimmedMessage)) 3 1000 w1")
    have "cachedModelName w2 = cachedModelName w1"
      using callGenerateContent_cache fb by (rule retryWithBackoff_cache)
    with assms prim Inl fb c1 show ?thesis by (simp add: invoke_def fallbackPath_def)
  qed
qed

section \<open>C8: the fallback of the conversation call\<close>



section \<open>C9: resolving the model twice\<close>

lemma tryModels_success:
  "tryModels up names r0 w = (r, w1) \<Longrightarrow> \<not> truthyName (modelName r0) \<Longrightarrow>
   truthyName (modelName r) \<Longrightarrow>
   \<exists>n. modelName r = Some n \<and> n \<noteq> [] \<and> model r = Some n \<and> cachedModelName w1 = Some n"
proof (induction names arbitrary: r0 w)
  case Nil
  then show ?case by simp
next
  case (Cons name names)
  obtain run w' where run: "retryWithBackoff (probe up name) 2 500 w = (run, w')"
    by (cases "retryWithBackoff (probe up name) 2 500 w")
  show ?case
  proof (cases "result run")
    case (Inr v)
    with run Cons.prems show ?thesis by (auto simp: truthyName_def)
  next
    case (Inl err)
    with run Cons.prems(1)
    have "tryModels up names (r0\<lparr>model := Some name, lastError := Some err\<rparr>) w' = (r, w1)"
      by simp
    from Cons.IH [OF this] Cons.prems(2,3) show ?thesis by simp
  qed
qed

lemma tryCachedModel_cases:
  assumes "tryCachedModel up w = (r, w')"
  shows "(model r = None \<and> \<not> truthyName (modelName r) \<and> lastError r = None)
       \<or> (\<exists>n. n \<noteq> [] \<and> model r = Some n \<and> modelName r = Some n \<and> cachedModelName w' = Some n)"
proof (cases "cachedModelName w")
  case None
  with assms show ?thesis by (auto simp: tryCachedModel_def truthyName_def)
next
  case (Some name)
  show ?thesis
  proof (cases "name = []")
    case True
    with Some assms show ?thesis by (auto simp: tryCachedModel_def truthyName_def)
  next
    case False
    obtain run w1 where run: "retryWithBackoff (probe up name) 2 500 w = (run, w1)"
      by (cases "retryWithBackoff (probe up name) 2 500 w")
    have "cachedModelName w1 = cachedModelName w"
      using retryWithBackoff_world [of "probe up name", OF probe_world run] by simp
    with Some False assms run show ?thesis
      by (cases "result run") (auto simp: tryCachedModel_def truthyName_def)
  qed
qed

lemma resolveModel_success:
  assumes "resolveModel up w0 = (r, w)" "model r \<noteq> None" "truthyName (modelName r)"
  shows "\<exists>n. modelName r = Some n \<and> n \<noteq> [] \<and> cachedModelName w = Some n"
proof -
  obtain r1 w1 where c: "tryCachedModel up w0 = (r1, w1)" by (cases "tryCachedModel up w0")
  from tryCachedModel_cases [OF c] show ?thesis
  proof
    assume a: "model r1 = None \<and> \<not> truthyName (modelName r1) \<and> lastError r1 = None"
    with c assms(1) have "tryModels up modelNames r1 w1 = (r, w)"
      by (simp add: resolveModel_def)
    from tryModels_success [OF this] a assms(3) show ?thesis by blast
  next
    assume "\<exists>n. n \<noteq> [] \<and> model r1 = Some n \<and> modelName r1 = Some n \<and> cachedModelName w1 = Some n"
    then obtain n where n: "n \<noteq> []" "model r1 = Some n" "modelName r1 = Some n"
        "cachedModelName w1 = Some n" by blast
    with c assms(1) have "r = r1" "w = w1"
      by (simp_all add: resolveModel_def truthyName_def)
    with n show ?thesis by simp
  qed
qed

lemma chatBody_reply:
  assumes body: "chatBody up trimmedMessage history w0 = (Inr replyText, w2)"
    and res: "resolveModel up w0 = (r, w1)"
  shows "\<exists>n. n \<noteq> [] \<and> modelName r = Some n \<and> cachedModelName w2 = Some n"
proof -
  from body obtain conv where
    conv: "buildHistoryForGemini (Some (trimmedHistory history)) trimmedMessage = Inr conv"
    by (cases "buildHistoryForGemini (Some (trimmedHistory history)) trimmedMessage")
      (simp_all add: chatBody_def Let_def)
  from body conv res have ok: "model r \<noteq> None" "truthyName (modelName r)"
    by (auto simp: chatBody_def Let_def split: if_splits)
  then obtain name where name: "model r = Some name" by auto
  from body conv res ok name
  have inv: "invoke up name (objectsOf (trimmedHistory history)) conv trimmedMessage w1
      = (Inr replyText, w2)"
    by (simp add: chatBody_def Let_def)
  from resolveModel_success [OF res ok] obtain n where
    n: "modelName r = Some n" "n \<noteq> []" "cachedModelName w1 = Some n" by blast
  with invoke_cache [OF inv] show ?thesis by simp
qed

text \<open>
  C9. A resolution that succeeds with model \<open>n\<close> leaves \<open>n\<close> in \<open>cachedModelName\<close>, the
  reply call after it does not touch the cache, and so a request that is answered with a
  reply ends with the model it resolved in the cache. From any state whose cache holds
  \<open>n\<close>, the next resolution starts with the retried probe of \<open>n\<close>. When that probe
  succeeds, the resolution returns \<open>n\<close> again, leaves the cache at \<open>n\<close>, and its only
  calls are the one or two \<open>generateContent\<close> probes of \<open>n\<close>: the candidates are not
  walked. When it fails, the cache is cleared and the resolution is the walk over the
  candidates from there. A resolution that starts with an empty cache is the walk.
\<close>

theorem resolveModel_idempotent:
  "(resolveModel up w0 = (r, w1) \<and> model r \<noteq> None \<and> modelName r = Some n \<and> n \<noteq> []
      \<longrightarrow> cachedModelName w1 = Some n)
   \<and> (invoke up name trimmedHist conversationHistory trimmedMessage w1 = (reply, w2)
      \<longrightarrow> cachedModelName w2 = cachedModelName w1)
   \<and> (chatHandler up apiKey req w0 = (resp, after) \<and> status resp = 200
        \<and> resolveModel up w0 = (r, w1)
      \<longrightarrow> (\<exists>k. k \<noteq> [] \<and> modelName r = Some k \<and> cachedModelName after = Some k))
   \<and> (cachedModelName w = Some n \<and> n \<noteq> []
        \<and> retryWithBackoff (probe up n) 2 500 w = (run, w')
      \<longrightarrow> (case result run of
             Inr v \<Rightarrow>
               resolveModel up w = (\<lparr>model = Some n, modelName = Some n, lastError = None\<rparr>, w')
               \<and> cachedModelName w' = Some n
               \<and> calls w' = calls w @ replicate (length (attempts run)) (GenerateContent n ''test'')
               \<and> 1 \<le> length (attempts run) \<and> length (attempts run) \<le> 2
           | Inl e \<Rightarrow>
               resolveModel up w
                 = tryModels up modelNames \<lparr>model = None, modelName = None, lastError = None\<rparr>
                     (w'\<lparr>cachedModelName := None\<rparr>)))
   \<and> (cachedModelName w = None \<longrightarrow>
         resolveModel up w
           = tryModels up modelNames \<lparr>model = None, modelName = None, lastError = None\<rparr> w)"
proof -
  have first: "resolveModel up w0 = (r, w1) \<and> model r \<noteq> None \<and> modelName r = Some n \<and> n \<noteq> []
      \<longrightarrow> cachedModelName w1 = Some n"
  proof
    assume a: "resolveModel up w0 = (r, w1) \<and> model r \<noteq> None \<and> modelName r = Some n \<and> n \<noteq> []"
    then have "truthyName (modelName r)" by (simp add: truthyName_def)
    with a resolveModel_success [of up w0 r w1] show "cachedModelName w1 = Some n" by auto
  qed
  have reply: "invoke up name trimmedHist conversationHistory trimmedMessage w1 = (reply, w2)
      \<longrightarrow> cachedModelName w2 = cachedModelName w1"
    using invoke_cache by blast
  have request: "chatHandler up apiKey req w0 = (resp, after) \<and> status resp = 200
        \<and> resolveModel up w0 = (r, w1)
      \<longrightarrow> (\<exists>k. k \<noteq> [] \<and> modelName r = Some k \<and> cachedModelName after = Some k)"
  proof
    assume a: "chatHandler up apiKey req w0 = (resp, after) \<and> status resp = 200
        \<and> resolveModel up w0 = (r, w1)"
    then obtain replyText where
      "chatBody up (trim (messageString (req_message req))) (req_history req) w0
         = (Inr replyText, after)"
      by (auto simp: chatHandler_def split: sum.splits bool.splits if_splits prod.splits)
    from chatBody_reply [OF this] a
    show "\<exists>k. k \<noteq> [] \<and> modelName r = Some k \<and> cachedModelName after = Some k"
      by blast
  qed
  have cached: "cachedModelName w = Some n \<and> n \<noteq> []
        \<and> retryWithBackoff (probe up n) 2 500 w = (run, w')
      \<longrightarrow> (case result run of
             Inr v \<Rightarrow>
               resolveModel up w = (\<lparr>model = Some n, modelName = Some n, lastError = None\<rparr>, w')
               \<and> cachedModelName w' = Some n
               \<and> calls w' = calls w @ replicate (length (attempts run)) (GenerateContent n ''test'')
               \<and> 1 \<le> length (attempts run) \<and> length (attempts run) \<le> 2
           | Inl e \<Rightarrow>
               resolveModel up w
                 = tryModels up modelNames \<lparr>model = None, modelName = None, lastError = None\<rparr>
                     (w'\<lparr>cachedModelName := None\<rparr>))"
  proof
    assume a: "cachedModelName w = Some n \<and> n \<noteq> []
        \<and> retryWithBackoff (probe up n) 2 500 w = (run, w')"
    then have cache: "cachedModelName w = Some n" and ne: "n \<noteq> []"
      and again: "retryWithBackoff (probe up n) 2 500 w = (run, w')" by simp_all
    have world: "calls w' = calls w @ replicate (length (attempts run)) (GenerateContent n ''test'')
        \<and> cachedModelName w' = cachedModelName w"
      using probe_world again by (rule retryWithBackoff_world)
    have k: "1 \<le> length (attempts run) \<and> length (attempts run) \<le> nat 2 \<and> result run \<noteq> Inr None"
      by (rule retryWithBackoff_attempts [OF again]) simp
    show "(case result run of
             Inr v \<Rightarrow>
               resolveModel up w = (\<lparr>model = Some n, modelName = Some n, lastError = None\<rparr>, w')
               \<and> cachedModelName w' = Some n
               \<and> calls w' = calls w @ replicate (length (attempts run)) (GenerateContent n ''test'')
               \<and> 1 \<le> length (attempts run) \<and> length (attempts run) \<le> 2
           | Inl e \<Rightarrow>
               resolveModel up w
                 = tryModels up modelNames \<lparr>model = None, modelName = None, lastError = None\<rparr>
                     (w'\<lparr>cachedModelName := None\<rparr>))"
      using cache again ne world k
      by (cases "result run") (simp_all add: resolveModel_def tryCachedModel_def truthyName_def)
  qed
  have empty: "cachedModelName w = None \<longrightarrow>
         resolveModel up w
           = tryModels up modelNames \<lparr>model = None, modelName = None, lastError = None\<rparr> w"
    by (simp add: resolveModel_def tryCachedModel_def truthyName_def)
  from first reply request cached empty show ?thesis by (intro conjI)
qed

theorem resolveModel_idempotent_witness:
  "chatHandler
      \<lparr>generateContent = (\<lambda>name prompt u. (Inr (GenResult (Inr ''ok'')), u)),
       startChat = (\<lambda>name history u. (Inr (), u)),
       sendMessage = (\<lambda>name history txt u. (Inr (GenResult (Inr ''ok'')), u))\<rparr>
      (Some ''key'')
      \<lparr>req_message = JString ''hi'', req_history = Some [], req_userId = JUndefined\<rparr>
      \<lparr>cachedModelName = None, upstreamState = (), calls = []\<rparr>
    = (\<lparr>status = 200, body = ReplyBody ''ok''\<rparr>,
       \<lparr>cachedModelName = Some ''gemini-2.5-flash'', upstreamState = (),
        calls = [GenerateContent ''gemini-2.5-flash'' ''test'',
                 GenerateContent ''gemini-2.5-flash'' ''hi'']\<rparr>)
   \<and> resolveModel
      \<lparr>generateContent = (\<lambda>name prompt u. (Inr (GenResult (Inr ''ok'')), u)),
       startChat = (\<lambda>name history u. (Inr (), u)),
       sendMessage = (\<lambda>name history txt u. (Inr (GenResult (Inr ''ok'')), u))\<rparr>
      \<lparr>cachedModelName = Some ''gemini-2.5-flash'', upstreamState = (),
        calls = [GenerateContent ''gemini-2.5-flash'' ''test'',
                 GenerateContent ''gemini-2.5-flash'' ''hi'']\<rparr>
    = (\<lparr>model = Some ''gemini-2.5-flash'', modelName = Some ''gemini-2.5-flash'', lastError = None\<rparr>,
       \<lparr>cachedModelName = Some ''gemini-2.5-flash'', upstreamState = (),
        calls = [GenerateContent ''gemini-2.5-flash'' ''test'',
                 GenerateContent ''gemini-2.5-flash'' ''hi'',
                 GenerateContent ''gemini-2.5-flash'' ''test'']\<rparr>)"
proof -
  let ?up = "\<lparr>generateContent = (\<lambda>name prompt u. (Inr (GenResult (Inr ''ok'')), u)),
       startChat = (\<lambda>name history u. (Inr (), u)),
       sendMessage = (\<lambda>name history txt u. (Inr (GenResult (Inr ''ok'')), u))\<rparr> :: unit upstream"
  let ?start = "\<lparr>cachedModelName = None, upstreamState = (), calls = []\<rparr>"
  let ?probed = "\<lparr>cachedModelName = Some ''gemini-2.5-flash'', upstreamState = (),
        calls = [GenerateContent ''gemini-2.5-flash'' ''test'']\<rparr>"
  let ?replied = "\<lparr>cachedModelName = Some ''gemini-2.5-flash'', upstreamState = (),
        calls = [GenerateContent ''gemini-2.5-flash'' ''test'',
                 GenerateContent ''gemini-2.5-flash'' ''hi'']\<rparr>"
  let ?final = "\<lparr>cachedModelName = Some ''gemini-2.5-flash'', upstreamState = (),
        calls = [GenerateContent ''gemini-2.5-flash'' ''test'',
                 GenerateContent ''gemini-2.5-flash'' ''hi'',
                 GenerateContent ''gemini-2.5-flash'' ''test'']\<rparr>"
  let ?r = "\<lparr>model = Some ''gemini-2.5-flash'', modelName = Some ''gemini-2.5-flash'', lastError = None\<rparr>"
  let ?req = "\<lparr>req_message = JString ''hi'', req_history = Some [], req_userId = JUndefined\<rparr>"
  have first: "resolveModel ?up ?start = (?r, ?probed)"
    apply (simp add: resolveModel_def tryCachedModel_def modelNames_def truthyName_def)
    apply (simp add: retryWithBackoff_def retryLoop.simps probe_def callGenerateContent_def)
    done
  have reply: "invoke ?up ''gemini-2.5-flash'' [] [\<lparr>role = ''user'', parts = [Part ''hi'']\<rparr>] ''hi'' ?probed
      = (Inr ''ok'', ?replied)"
    by (simp add: invoke_def primaryPath_def retryWithBackoff_def retryLoop.simps
        callGenerateContent_def replyTextOf_def)
  have msg: "messageMissing (JString ''hi'') = Inr False" "trim ''hi'' = ''hi''"
    by (simp_all add: messageMissing_def trim_def stripLeading.simps whiteSpaces_def)
  have body: "chatBody ?up ''hi'' (Some []) ?start = (Inr ''ok'', ?replied)"
    by (simp add: chatBody_def Let_def trimmedHistory_def buildHistoryForGemini_def first
        truthyName_def reply)
  have request: "chatHandler ?up (Some ''key'') ?req ?start
      = (\<lparr>status = 200, body = ReplyBody ''ok''\<rparr>, ?replied)"
    by (simp add: chatHandler_def msg messageString_def truthyName_def body)
  have again: "retryWithBackoff (probe ?up ''gemini-2.5-flash'') 2 500 ?replied
      = (\<lparr>result = Inr (Some ()), attempts = [Inr ()], delays = []\<rparr>, ?final)"
    by (simp add: retryWithBackoff_def retryLoop.simps probe_def callGenerateContent_def)
  note all = resolveModel_idempotent [of ?up ?start ?r ?probed "''gemini-2.5-flash''"
      "''gemini-2.5-flash''" "[]" "[\<lparr>role = ''user'', parts = [Part ''hi'']\<rparr>]" "''hi''"
      "Inr ''ok''" ?replied "Some ''key''" ?req "\<lparr>status = 200, body = ReplyBody ''ok''\<rparr>"
      ?replied ?replied "\<lparr>result = Inr (Some ()), attempts = [Inr ()], delays = []\<rparr>" ?final]
  from all first reply request again
  have "resolveModel ?up ?replied = (?r, ?final)"
    by simp
  with request show ?thesis by simp
qed

section \<open>C2: every candidate fails with an error that is not an overload\<close>

lemma noModelError_overloaded: "errorMessage (noModelError lastErr) = overloadedTemplate"
proof -
  obtain t where t: "noModelError lastErr =
      Error (Some (''No available Gemini model found. All models are either unavailable or ''
        @ ''overloaded'' @ ''. Last error: '' @ t @ ''. Please try again in a few moments.''))"
    by (simp add: noModelError_def)
  have "includes_str (''No available Gemini model found. All models are either unavailable or ''
        @ ''overloaded'' @ (''. Last error: '' @ t @ ''. Please try again in a few moments.''))
        ''overloaded''"
    by (rule includes_str_mid)
  then show ?thesis
    unfolding t by (simp add: errorMessage_def)
qed

text \<open>
  C2, on the code. Every probe fails with a 401 error. The six candidates are probed
  once each, the request fails with the error of line 146, and the answer is status 500
  with the overloaded text, although the last error itself is classified as
  unauthorized: the fixed part of the line 146 message contains the word
  \<open>overloaded\<close>, which the first test of the classification finds.
\<close>

theorem chatHandler_unauthorized_probes_report_overloaded:
  "chatHandler
      \<lparr>generateContent = (\<lambda>name prompt u. (Inl (Error (Some ''[401 Unauthorized] API key not valid'')), u)),
       startChat = (\<lambda>name history u. (Inr (), u)),
       sendMessage = (\<lambda>name history txt u. (Inl (Error (Some ''[401 Unauthorized] API key not valid'')), u))\<rparr>
      (Some ''bad-key'')
      \<lparr>req_message = JString ''hi'', req_history = Some [], req_userId = JUndefined\<rparr>
      \<lparr>cachedModelName = None, upstreamState = (), calls = []\<rparr>
    = (\<lparr>status = 500, body = ErrorBody overloadedTemplate\<rparr>,
       \<lparr>cachedModelName = None, upstreamState = (),
        calls = map (\<lambda>name. GenerateContent name ''test'') modelNames\<rparr>)
   \<and> errorMessage (Error (Some ''[401 Unauthorized] API key not valid'')) = unauthorizedTemplate
   \<and> overloadedTemplate \<noteq> unauthorizedTemplate"
proof -
  have ov: "\<not> isOverloaded (Error (Some ''[401 Unauthorized] API key not valid''))"
    by (simp add: isOverloaded_def)
  have probe: "\<And>name w. retryWithBackoff
      (probe \<lparr>generateContent = (\<lambda>name prompt u. (Inl (Error (Some ''[401 Unauthorized] API key not valid'')), u)),
       startChat = (\<lambda>name history u. (Inr (), u)),
       sendMessage = (\<lambda>name history txt u. (Inl (Error (Some ''[401 Unauthorized] API key not valid'')), u))\<rparr> name)
      2 500 (w :: unit world)
     = (\<lparr>result = Inl (Error (Some ''[401 Unauthorized] API key not valid'')),
         attempts = [Inl (Error (Some ''[401 Unauthorized] API key not valid''))], delays = []\<rparr>,
        w\<lparr>calls := calls w @ [GenerateContent name ''test'']\<rparr>)"
    using ov by (simp add: retryWithBackoff_def retryLoop.simps probe_def callGenerateContent_def)
  have body: "chatBody
      \<lparr>generateContent = (\<lambda>name prompt u. (Inl (Error (Some ''[401 Unauthorized] API key not valid'')), u)),
       startChat = (\<lambda>name history u. (Inr (), u)),
       sendMessage = (\<lambda>name history txt u. (Inl (Error (Some ''[401 Unauthorized] API key not valid'')), u))\<rparr>
      ''hi'' (Some []) \<lparr>cachedModelName = None, upstreamState = (), calls = []\<rparr>
     = (Inl (noModelError (Some (Error (Some ''[401 Unauthorized] API key not valid'')))),
        \<lparr>cachedModelName = None, upstreamState = (),
         calls = map (\<lambda>name. GenerateContent name ''test'') modelNames\<rparr>)"
    by (simp add: chatBody_def resolveModel_def tryCachedModel_def modelNames_def probe
        truthyName_def Let_def trimmedHistory_def buildHistoryForGemini_def)
  have msg: "messageMissing (JString ''hi'') = Inr False" "trim ''hi'' = ''hi''"
    by (simp_all add: messageMissing_def trim_def stripLeading.simps whiteSpaces_def)
  have "errorMessage (Error (Some ''[401 Unauthorized] API key not valid'')) = unauthorizedTemplate"
    by (simp add: errorMessage_def)
  moreover have "overloadedTemplate \<noteq> unauthorizedTemplate"
    by (simp add: overloadedTemplate_def unauthorizedTemplate_def)
  ultimately show ?thesis
    by (simp add: chatHandler_def msg messageString_def truthyName_def body noModelError_overloaded)
qed

end
